theory Spec2Isabelle
  imports Main
begin

section \<open>The calendar and clock arithmetic of Go's package time\<close>

text \<open>
  The codec in \<^verbatim>\<open>icalendar/values/datetime.go\<close> stores one \<^verbatim>\<open>time.Time\<close> and does all of
  its work through \<^verbatim>\<open>Time.Format\<close>, \<^verbatim>\<open>time.ParseInLocation\<close> and \<^verbatim>\<open>time.LoadLocation\<close>.
  This section models what those library functions compute on the three layouts the codec
  uses. A \<^verbatim>\<open>Time\<close> is an instant (seconds since the Unix epoch and nanoseconds within
  the second) together with a location; seconds are unbounded integers, so the model does
  not follow Go beyond the range of its 64-bit counters.
\<close>

definition secondsPerDay :: int where
  "secondsPerDay = 86400"

text \<open>Days from 0001-01-01 to 1970-01-01 in the proleptic Gregorian calendar.\<close>

definition unixEpochDay :: int where
  "unixEpochDay = 719162"

definition isLeap :: "int \<Rightarrow> bool" where
  "isLeap year = (year mod 4 = 0 \<and> (year mod 100 \<noteq> 0 \<or> year mod 400 = 0))"

text \<open>\<^verbatim>\<open>daysBefore[m]\<close> counts the days in a non-leap year before month \<open>m + 1\<close>.\<close>

definition daysBefore :: "int list" where
  "daysBefore = [0, 31, 59, 90, 120, 151, 181, 212, 243, 273, 304, 334, 365]"

definition daysIn :: "int \<Rightarrow> int \<Rightarrow> int" where
  "daysIn m year =
     (if m = 2 \<and> isLeap year then 29
      else daysBefore ! nat m - daysBefore ! nat (m - 1))"

text \<open>Days from 0001-01-01 to January 1 of \<open>year\<close>.\<close>

definition daysBeforeYear :: "int \<Rightarrow> int" where
  "daysBeforeYear year =
     (let y = year - 1 in 365 * y + y div 4 - y div 100 + y div 400)"

text \<open>
  The day number (days since 0001-01-01) of a civil date, as \<^verbatim>\<open>time.Date\<close> computes it for
  a month in 1..12 and a day in range. \<^verbatim>\<open>time.Date\<close> also normalises out-of-range
  arguments; its only caller here, the parser, has checked every range before.
\<close>

definition dayNumber :: "int \<Rightarrow> int \<Rightarrow> int \<Rightarrow> int" where
  "dayNumber year month day =
     daysBeforeYear year + daysBefore ! nat (month - 1)
       + (if isLeap year \<and> month \<ge> 3 then 1 else 0) + (day - 1)"

text \<open>
  The year of a day number: the year \<open>y\<close> with
  \<open>daysBeforeYear y \<le> n < daysBeforeYear (y + 1)\<close>, found by walking up from a year
  that is not after it.
\<close>

lemma div_step:
  fixes y k :: int
  assumes "0 < k"
  shows "y div k - (y - 1) div k = (if y mod k = 0 then 1 else 0)"
proof -
  have y: "y = k * (y div k) + y mod k" by simp
  show ?thesis
  proof (cases "y mod k = 0")
    case True
    have "y - 1 = k * (y div k - 1) + (k - 1)"
      using y True by (simp add: algebra_simps)
    then have "(y - 1) div k = y div k - 1"
      using assms by (intro int_div_pos_eq [where r = "k - 1"]) auto
    then show ?thesis using True by simp
  next
    case False
    then have pos: "0 < y mod k"
      using assms by (metis pos_mod_sign less_le)
    have "y - 1 = k * (y div k) + (y mod k - 1)" using y by simp
    then have "(y - 1) div k = y div k"
      using assms pos pos_mod_bound [OF assms, of y]
      by (intro int_div_pos_eq [where r = "y mod k - 1"]) auto
    then show ?thesis using False by simp
  qed
qed

lemma mod_100_4: "(y::int) mod 100 = 0 \<Longrightarrow> y mod 4 = 0"
  using mod_mod_cancel [of 4 100 y] by simp

lemma mod_400_100: "(y::int) mod 400 = 0 \<Longrightarrow> y mod 100 = 0"
  using mod_mod_cancel [of 100 400 y] by simp

lemma leap_step_aux:
  fixes d4 e4 d100 e100 d400 e400 y :: int
  assumes "d4 - e4 = (if p4 then 1 else 0)"
    and "d100 - e100 = (if p100 then 1 else 0)"
    and "d400 - e400 = (if p400 then 1 else 0)"
    and "p100 \<Longrightarrow> p4" and "p400 \<Longrightarrow> p100"
  shows "365 * y + d4 - d100 + d400 =
         365 * (y - 1) + e4 - e100 + e400 + (if p4 \<and> (\<not> p100 \<or> p400) then 366 else 365)"
  using assms by (cases p4; cases p100; cases p400) simp_all

lemma daysBeforeYear_step:
  "daysBeforeYear (y + 1) = daysBeforeYear y + (if isLeap y then 366 else 365)"
proof -
  have "365 * y + y div 4 - y div 100 + y div 400 =
        365 * (y - 1) + (y - 1) div 4 - (y - 1) div 100 + (y - 1) div 400
          + (if y mod 4 = 0 \<and> (\<not> y mod 100 = 0 \<or> y mod 400 = 0) then 366 else 365)"
    by (rule leap_step_aux [OF div_step div_step div_step mod_100_4 mod_400_100]) simp_all
  then show ?thesis
    unfolding daysBeforeYear_def isLeap_def Let_def by (simp only: add_diff_cancel_right')
qed

function yearFrom :: "int \<Rightarrow> int \<Rightarrow> int" where
  "yearFrom y n = (if daysBeforeYear (y + 1) \<le> n then yearFrom (y + 1) n else y)"
  by pat_completeness auto
termination
proof (relation "measure (\<lambda>(y, n). nat (n + 1 - daysBeforeYear (y + 1)))")
  show "wf (measure (\<lambda>(y, n). nat (n + 1 - daysBeforeYear (y + 1))))"
    by simp
next
  fix y n :: int
  assume "daysBeforeYear (y + 1) \<le> n"
  moreover have "daysBeforeYear (y + 1) < daysBeforeYear (y + 1 + 1)"
    by (simp only: daysBeforeYear_step [of "y + 1"] split: if_splits) simp
  ultimately show "((y + 1, n), (y, n)) \<in> measure (\<lambda>(y, n). nat (n + 1 - daysBeforeYear (y + 1)))"
    by simp
qed

definition yearOfDay :: "int \<Rightarrow> int" where
  "yearOfDay n = yearFrom (if n < 0 then n div 365 else n div 366 + 1) n"

text \<open>
  Month and day of month from the zero-based day of the year, as \<^verbatim>\<open>absDate\<close> does: in a
  leap year the days after February 29 are shifted down by one and February 29 is
  answered directly; the month is then read off the table of a non-leap year.
\<close>

definition monthOfYday :: "int \<Rightarrow> int" where
  "monthOfYday d =
     (if d < 31 then 1 else if d < 59 then 2 else if d < 90 then 3
      else if d < 120 then 4 else if d < 151 then 5 else if d < 181 then 6
      else if d < 212 then 7 else if d < 243 then 8 else if d < 273 then 9
      else if d < 304 then 10 else if d < 334 then 11 else 12)"

definition monthDay :: "int \<Rightarrow> int \<Rightarrow> int \<times> int" where
  "monthDay year yday =
     (if isLeap year \<and> yday = 31 + 29 - 1 then (2, 29)
      else
        let d = (if isLeap year \<and> yday > 31 + 29 - 1 then yday - 1 else yday);
            m = monthOfYday d
        in (m, d - daysBefore ! nat (m - 1) + 1))"

text \<open>The civil date \<open>(year, month, day)\<close> of a day number.\<close>

definition civil :: "int \<Rightarrow> int \<times> int \<times> int" where
  "civil n =
     (let y = yearOfDay n; (m, d) = monthDay y (n - daysBeforeYear y) in (y, m, d))"

section \<open>Digits and numbers in text\<close>

definition isDigitChar :: "char \<Rightarrow> bool" where
  "isDigitChar c = (48 \<le> (of_char c :: int) \<and> (of_char c :: int) \<le> 57)"

text \<open>\<^verbatim>\<open>isDigit(s, i)\<close>: position \<open>i\<close> exists in \<open>s\<close> and holds a decimal digit.\<close>

definition isDigit :: "string \<Rightarrow> nat \<Rightarrow> bool" where
  "isDigit s i = (i < length s \<and> isDigitChar (s ! i))"

definition digitVal :: "char \<Rightarrow> int" where
  "digitVal c = of_char c - 48"

definition digitChar :: "int \<Rightarrow> char" where
  "digitChar n = char_of (48 + n)"

text \<open>The decimal digits of a number that is not negative.\<close>

function digits :: "int \<Rightarrow> string" where
  "digits n = (if n < 10 then [digitChar n] else digits (n div 10) @ [digitChar (n mod 10)])"
  by pat_completeness auto
termination
proof (relation "measure nat")
  show "wf (measure nat)" by simp
next
  fix n :: int
  assume "\<not> n < 10"
  then have "0 < n" by simp
  then have "n div 10 < n" by (rule int_div_less_self) simp
  with \<open>0 < n\<close> show "(n div 10, n) \<in> measure nat" by simp
qed

declare digits.simps [simp del]

text \<open>
  \<^verbatim>\<open>appendInt(b, x, width)\<close>: the decimal form of \<open>x\<close>, a minus sign first when it is
  negative, zero-padded to \<open>width\<close> digits and never cut.
\<close>

definition appendInt :: "int \<Rightarrow> nat \<Rightarrow> string" where
  "appendInt x width =
     (let ds = digits \<bar>x\<bar>
      in (if x < 0 then ''-'' else []) @ replicate (width - length ds) (CHR ''0'') @ ds)"

text \<open>
  \<^verbatim>\<open>getnum(s, fixed)\<close> reads one or two digits; with \<open>fixed\<close> it insists on two. \<open>None\<close>
  is the error \<^verbatim>\<open>errBad\<close>.
\<close>

definition getnum :: "string \<Rightarrow> bool \<Rightarrow> (int \<times> string) option" where
  "getnum s fixed =
     (if \<not> isDigit s 0 then None
      else if \<not> isDigit s 1 then
        (if fixed then None else Some (digitVal (s ! 0), drop 1 s))
      else Some (digitVal (s ! 0) * 10 + digitVal (s ! 1), drop 2 s))"

fun leadingInt :: "string \<Rightarrow> int \<Rightarrow> int \<times> string" where
  "leadingInt [] x = (x, [])"
| "leadingInt (c # cs) x =
     (if isDigitChar c then leadingInt cs (x * 10 + digitVal c) else (x, c # cs))"

text \<open>
  \<^verbatim>\<open>atoi\<close>: an optional sign, then digits to the end of the text; anything left over is
  the error \<^verbatim>\<open>errAtoi\<close> (\<open>None\<close>).
\<close>

definition atoi :: "string \<Rightarrow> int option" where
  "atoi s =
     (let neg = (s \<noteq> [] \<and> hd s = CHR ''-'');
          s' = (if s \<noteq> [] \<and> (hd s = CHR ''-'' \<or> hd s = CHR ''+'') then tl s else s);
          (q, rem) = leadingInt s' 0
      in if rem \<noteq> [] then None else Some (if neg then - q else q))"

section \<open>Locations\<close>

text \<open>
  A location other than UTC is a table of offsets from UTC: the offset in force before the
  first transition and the transitions \<open>(when, offset)\<close> in ascending order of \<open>when\<close>,
  as the zone database lists them. \<^verbatim>\<open>time.UTC\<close> and \<^verbatim>\<open>time.Local\<close> are the two locations
  that Go compares by identity; every other location has a name of its own. The name of
  \<^verbatim>\<open>time.Local\<close> depends on the machine: it is \<^verbatim>\<open>Local\<close>, the zone name in the environment
  variable \<^verbatim>\<open>TZ\<close>, or \<^verbatim>\<open>UTC\<close>, so the local location carries its name with its table. Zone
  abbreviations and the rule that extends a table beyond its last transition are left
  out: no layout of the codec prints an abbreviation.
\<close>

record zonedata =
  firstOffset :: int
  tx :: "(int \<times> int) list"

datatype location = UTC | Local string zonedata | Named string zonedata

definition alpha :: int where
  "alpha = - (2 ^ 63)"

definition omega :: int where
  "omega = 2 ^ 63 - 1"

text \<open>\<^verbatim>\<open>Location.String\<close>: the name of the location.\<close>

fun locString :: "location \<Rightarrow> string" where
  "locString UTC = ''UTC''"
| "locString (Local name z) = name"
| "locString (Named name z) = name"

text \<open>
  \<^verbatim>\<open>Location.lookup(sec)\<close>: the offset in force at the instant \<open>sec\<close> and the bounds
  \<open>start \<le> sec < end\<close> of the period in which it is in force.
\<close>

fun lookupTx :: "(int \<times> int) list \<Rightarrow> int \<Rightarrow> int \<times> int \<times> int \<Rightarrow> int \<times> int \<times> int" where
  "lookupTx [] sec cur = cur"
| "lookupTx ((when, off) # rest) sec (offset, start, end) =
     (if sec < when then (offset, start, when)
      else lookupTx rest sec (off, when, omega))"

fun lookup :: "location \<Rightarrow> int \<Rightarrow> int \<times> int \<times> int" where
  "lookup UTC sec = (0, alpha, omega)"
| "lookup (Local name z) sec = lookupTx (tx z) sec (firstOffset z, alpha, omega)"
| "lookup (Named name z) sec = lookupTx (tx z) sec (firstOffset z, alpha, omega)"

text \<open>
  The zone database and the system's local zone, which \<^verbatim>\<open>time.LoadLocation\<close> reads from
  the machine it runs on.
\<close>

record tzenv =
  localName :: string
  localZone :: zonedata
  zoneinfo :: "(string \<times> zonedata) list"

fun containsDotDot :: "string \<Rightarrow> bool" where
  "containsDotDot (a # b # cs) = ((a = CHR ''.'' \<and> b = CHR ''.'') \<or> containsDotDot (b # cs))"
| "containsDotDot cs = False"

datatype loadError = InvalidLocationName | UnknownTimeZone string

definition LoadLocation :: "tzenv \<Rightarrow> string \<Rightarrow> loadError + location" where
  "LoadLocation env name =
     (if name = [] \<or> name = ''UTC'' then Inr UTC
      else if name = ''Local'' then Inr (Local (localName env) (localZone env))
      else if containsDotDot name \<or> hd name = CHR ''/'' \<or> hd name = CHR 0x5C
        then Inl InvalidLocationName
      else case map_of (zoneinfo env) name of
             None \<Rightarrow> Inl (UnknownTimeZone name)
           | Some z \<Rightarrow> Inr (Named name z))"

section \<open>Instants\<close>

record Time =
  Unix :: int
  Nanosecond :: int
  Location :: location

text \<open>The zero \<^verbatim>\<open>Time{}\<close>: January 1 of year 1, 00:00:00 UTC.\<close>

definition zeroTime :: Time where
  "zeroTime = \<lparr>Unix = - 62135596800, Nanosecond = 0, Location = UTC\<rparr>"

text \<open>\<^verbatim>\<open>Time.Equal\<close>: the same instant, whatever the locations.\<close>

definition Equal :: "Time \<Rightarrow> Time \<Rightarrow> bool" where
  "Equal a b = (Unix a = Unix b \<and> Nanosecond a = Nanosecond b)"

text \<open>\<^verbatim>\<open>Time.Truncate(time.Second)\<close> drops the nanoseconds.\<close>

definition TruncateSecond :: "Time \<Rightarrow> Time" where
  "TruncateSecond tm = tm\<lparr>Nanosecond := 0\<rparr>"

text \<open>The wall-clock reading of an instant in its location, as seconds.\<close>

definition localSec :: "Time \<Rightarrow> int" where
  "localSec tm = Unix tm + fst (lookup (Location tm) (Unix tm))"

definition dateOf :: "Time \<Rightarrow> int \<times> int \<times> int" where
  "dateOf tm = civil (localSec tm div secondsPerDay + unixEpochDay)"

definition Year :: "Time \<Rightarrow> int" where
  "Year tm = fst (dateOf tm)"

definition Month :: "Time \<Rightarrow> int" where
  "Month tm = fst (snd (dateOf tm))"

definition Day :: "Time \<Rightarrow> int" where
  "Day tm = snd (snd (dateOf tm))"

definition Hour :: "Time \<Rightarrow> int" where
  "Hour tm = (localSec tm mod secondsPerDay) div 3600"

definition Minute :: "Time \<Rightarrow> int" where
  "Minute tm = (localSec tm mod secondsPerDay - Hour tm * 3600) div 60"

definition Second :: "Time \<Rightarrow> int" where
  "Second tm = localSec tm mod secondsPerDay - Hour tm * 3600 - Minute tm * 60"

text \<open>
  \<^verbatim>\<open>time.Date\<close> on arguments in range: the instant whose wall-clock reading in \<open>loc\<close> is
  the given one. The reading is first taken as if it were UTC; the offset found there
  is tried, and looked up again when the corrected instant falls outside the period it
  was found in.
\<close>

definition Date :: "int \<Rightarrow> int \<Rightarrow> int \<Rightarrow> int \<Rightarrow> int \<Rightarrow> int \<Rightarrow> int \<Rightarrow> location \<Rightarrow> Time" where
  "Date year month day hour minute sec nsec loc =
     (let unix = (dayNumber year month day - unixEpochDay) * secondsPerDay
                   + hour * 3600 + minute * 60 + sec;
          unix' =
            (if loc \<noteq> UTC then
               (case lookup loc unix of (offset, start, end) \<Rightarrow>
                  if offset \<noteq> 0 then
                    (let utc = unix - offset;
                         offset' = (if utc < start \<or> utc \<ge> end
                                    then fst (lookup loc utc) else offset)
                     in unix - offset')
                  else unix)
             else unix)
      in \<lparr>Unix = unix', Nanosecond = nsec, Location = loc\<rparr>)"

section \<open>Layouts, formatting and parsing\<close>

text \<open>
  A layout is cut into chunks as \<^verbatim>\<open>nextStdChunk\<close> cuts it. Only the reference-time
  elements that occur in the three layouts of the codec are recognised: \<^verbatim>\<open>2006\<close>,
  \<^verbatim>\<open>01\<close>, \<^verbatim>\<open>02\<close>, \<^verbatim>\<open>15\<close>, \<^verbatim>\<open>04\<close> and \<^verbatim>\<open>05\<close>; every other character of these
  layouts (\<^verbatim>\<open>T\<close>, and \<^verbatim>\<open>Z\<close> with no offset digits after it) is literal text.
\<close>

datatype chunk =
  stdLongYear | stdZeroMonth | stdZeroDay | stdHour | stdZeroMinute | stdZeroSecond
  | Literal char

fun layoutChunks :: "string \<Rightarrow> chunk list" where
  "layoutChunks [] = []"
| "layoutChunks (c # cs) =
     (if take 4 (c # cs) = ''2006'' then stdLongYear # layoutChunks (drop 3 cs)
      else if take 2 (c # cs) = ''01'' then stdZeroMonth # layoutChunks (drop 1 cs)
      else if take 2 (c # cs) = ''02'' then stdZeroDay # layoutChunks (drop 1 cs)
      else if take 2 (c # cs) = ''15'' then stdHour # layoutChunks (drop 1 cs)
      else if take 2 (c # cs) = ''04'' then stdZeroMinute # layoutChunks (drop 1 cs)
      else if take 2 (c # cs) = ''05'' then stdZeroSecond # layoutChunks (drop 1 cs)
      else Literal c # layoutChunks cs)"

text \<open>\<^verbatim>\<open>Time.Format\<close>: each chunk printed from the wall-clock reading of the instant.\<close>

fun formatChunk :: "Time \<Rightarrow> chunk \<Rightarrow> string" where
  "formatChunk tm stdLongYear = appendInt (Year tm) 4"
| "formatChunk tm stdZeroMonth = appendInt (Month tm) 2"
| "formatChunk tm stdZeroDay = appendInt (Day tm) 2"
| "formatChunk tm stdHour = appendInt (Hour tm) 2"
| "formatChunk tm stdZeroMinute = appendInt (Minute tm) 2"
| "formatChunk tm stdZeroSecond = appendInt (Second tm) 2"
| "formatChunk tm (Literal c) = [c]"

definition Format :: "Time \<Rightarrow> string \<Rightarrow> string" where
  "Format tm layout = concat (map (formatChunk tm) (layoutChunks layout))"

text \<open>
  The fields \<^verbatim>\<open>time.Parse\<close> collects. Month and day start at \<open>-1\<close> (absent).
\<close>

record parsed =
  pYear :: int
  pMonth :: int
  pDay :: int
  pHour :: int
  pMin :: int
  pSec :: int
  pNsec :: int

definition parsedInit :: parsed where
  "parsedInit = \<lparr>pYear = 0, pMonth = - 1, pDay = - 1, pHour = 0, pMin = 0, pSec = 0, pNsec = 0\<rparr>"

text \<open>
  Why a parse failed: the text does not have the form of the layout element, text is
  left over after the layout, or a field is out of range (with the field's name).
\<close>

datatype parseFail = BadValue | ExtraText string | OutOfRange string

text \<open>\<^verbatim>\<open>*time.ParseError\<close>: the layout, the whole text that was parsed, and the failure.\<close>

datatype ParseError = ParseError (peLayout: string) (peValue: string) (peFail: parseFail)

definition commaOrPeriod :: "char \<Rightarrow> bool" where
  "commaOrPeriod c = (c = CHR ''.'' \<or> c = CHR '','')"

text \<open>
  \<^verbatim>\<open>parseNanoseconds(value, nbytes)\<close>: the digits after the separator, at most nine of
  them, scaled to nanoseconds.
\<close>

definition parseNanoseconds :: "string \<Rightarrow> nat \<Rightarrow> parseFail + int" where
  "parseNanoseconds value nbytes =
     (if value = [] \<or> \<not> commaOrPeriod (hd value) then Inl BadValue
      else
        let v = (if nbytes > 10 then take 10 value else value);
            nb = (if nbytes > 10 then 10 else nbytes)
        in case atoi (drop 1 (take nb v)) of
             None \<Rightarrow> Inl BadValue
           | Some ns \<Rightarrow>
               if ns < 0 then Inl (OutOfRange ''fractional second'')
               else Inr (ns * 10 ^ (10 - nb)))"

text \<open>
  One element of the layout read off the front of the text. A range error is reported
  before a malformed value, as the parser does after its switch.
\<close>

fun parseStd :: "chunk \<Rightarrow> string \<Rightarrow> parsed \<Rightarrow> parseFail + (string \<times> parsed)" where
  "parseStd stdLongYear value p =
     (if length value < 4 \<or> \<not> isDigit value 0 then Inl BadValue
      else case atoi (take 4 value) of
             None \<Rightarrow> Inl BadValue
           | Some y \<Rightarrow> Inr (drop 4 value, p\<lparr>pYear := y\<rparr>))"
| "parseStd stdZeroMonth value p =
     (case getnum value True of
        None \<Rightarrow> Inl BadValue
      | Some (m, rest) \<Rightarrow>
          if m \<le> 0 \<or> 12 < m then Inl (OutOfRange ''month'')
          else Inr (rest, p\<lparr>pMonth := m\<rparr>))"
| "parseStd stdZeroDay value p =
     (case getnum value True of
        None \<Rightarrow> Inl BadValue
      | Some (d, rest) \<Rightarrow> Inr (rest, p\<lparr>pDay := d\<rparr>))"
| "parseStd stdHour value p =
     (case getnum value False of
        None \<Rightarrow> Inl BadValue
      | Some (h, rest) \<Rightarrow>
          if h < 0 \<or> 24 \<le> h then Inl (OutOfRange ''hour'')
          else Inr (rest, p\<lparr>pHour := h\<rparr>))"
| "parseStd stdZeroMinute value p =
     (case getnum value True of
        None \<Rightarrow> Inl BadValue
      | Some (m, rest) \<Rightarrow>
          if m < 0 \<or> 60 \<le> m then Inl (OutOfRange ''minute'')
          else Inr (rest, p\<lparr>pMin := m\<rparr>))"
| "parseStd stdZeroSecond value p =
     (case getnum value True of
        None \<Rightarrow> Inl BadValue
      | Some (s, rest) \<Rightarrow>
          if s < 0 \<or> 60 \<le> s then Inl (OutOfRange ''second'')
          else if length rest \<ge> 2 \<and> commaOrPeriod (rest ! 0) \<and> isDigit rest 1 then
            (let n = 1 + length (takeWhile isDigitChar (drop 1 rest))
             in case parseNanoseconds rest n of
                  Inl f \<Rightarrow> Inl f
                | Inr ns \<Rightarrow> Inr (drop n rest, p\<lparr>pSec := s, pNsec := ns\<rparr>))
          else Inr (rest, p\<lparr>pSec := s\<rparr>))"
| "parseStd (Literal c) value p =
     (if value = [] \<or> hd value \<noteq> c then Inl BadValue else Inr (tl value, p))"

fun parseChunks :: "chunk list \<Rightarrow> string \<Rightarrow> parsed \<Rightarrow> parseFail + parsed" where
  "parseChunks [] value p = (if value \<noteq> [] then Inl (ExtraText value) else Inr p)"
| "parseChunks (c # cs) value p =
     (case parseStd c value p of
        Inl f \<Rightarrow> Inl f
      | Inr (rest, p') \<Rightarrow> parseChunks cs rest p')"

text \<open>
  \<^verbatim>\<open>time.ParseInLocation\<close>: the fields are read, an absent month or day becomes 1, the
  day is checked against the month, and the instant is built in \<open>loc\<close>.
\<close>

definition ParseInLocation :: "string \<Rightarrow> string \<Rightarrow> location \<Rightarrow> ParseError + Time" where
  "ParseInLocation layout value loc =
     (case parseChunks (layoutChunks layout) value parsedInit of
        Inl f \<Rightarrow> Inl (ParseError layout value f)
      | Inr p \<Rightarrow>
          let month = (if pMonth p < 0 then 1 else pMonth p);
              day = (if pDay p < 0 then 1 else pDay p)
          in if day < 1 \<or> day > daysIn month (pYear p)
             then Inl (ParseError layout value (OutOfRange ''day''))
             else Inr (Date (pYear p) month day (pHour p) (pMin p) (pSec p) (pNsec p) loc))"

section \<open>The date-time codec: \<^verbatim>\<open>icalendar/values/datetime.go\<close>\<close>

definition DateFormatString :: string where
  "DateFormatString = ''20060102''"

definition DateTimeFormatString :: string where
  "DateTimeFormatString = ''20060102T150405''"

definition UTCDateTimeFormatString :: string where
  "UTCDateTimeFormatString = ''20060102T150405Z''"

record DateTime =
  t :: Time


text \<open>
  \<^verbatim>\<open>DateTimes\<close> is a slice of pointers: the list holds addresses, and the objects live in
  a store, so that one object can stand at several indices.
\<close>

type_synonym addr = nat

type_synonym DateTimes = "addr list"

record store =
  objs :: "addr \<Rightarrow> DateTime"
  nextAddr :: addr

text \<open>
  The methods of the codec that can fail, as the method values \<^verbatim>\<open>d.DecodeICalValue\<close>,
  \<^verbatim>\<open>ds.DecodeICalValue\<close> and so on that the code hands to \<^verbatim>\<open>utils.NewError\<close> as the
  identity of the failing operation.
\<close>

datatype operation =
  d_DecodeICalValue | d_DecodeICalParams | d_ValidateICalValue
  | ds_EncodeICalValue | ds_DecodeICalValue | ds_DecodeICalParams

text \<open>
  The instance an error points to: the receiver, as it stands when the call returns.
\<close>

datatype receiver = DateTimeInstance DateTime | DateTimesInstance DateTimes

text \<open>
  The values of Go's \<^verbatim>\<open>error\<close> that flow through the codec: a parse error and a
  location error of package time, an error of the list codec, and the codec's own
  errors. The cause of an error is \<open>None\<close> where the code passes \<^verbatim>\<open>nil\<close>.
\<close>

datatype go_error =
  TimeParseError ParseError
  | LocationError loadError
  | CodecError string
  | UtilsError (errOp: operation) (errMsg: string) (errInstance: receiver)
      (errCause: "go_error option")

text \<open>
  Modelled from the spec: \<^verbatim>\<open>utils.NewError\<close> (package \<^verbatim>\<open>utils\<close> is not among the source
  files). Every surfaced error carries the failing operation's identity, a
  human-readable message, the offending instance and the underlying cause.
\<close>

definition NewError :: "operation \<Rightarrow> string \<Rightarrow> receiver \<Rightarrow> go_error option \<Rightarrow> go_error" where
  "NewError fn msg inst cause = UtilsError fn msg inst cause"

text \<open>
  The parameter block \<^verbatim>\<open>properties.Params\<close> maps parameter names to values. The name
  of the timezone-identifier parameter is declared in package \<^verbatim>\<open>properties\<close>, outside
  the source files; it is RFC 5545's \<^verbatim>\<open>TZID\<close>.
\<close>

type_synonym Params = "string \<rightharpoonup> string"

definition TimeZoneIdPropertyName :: string where
  "TimeZoneIdPropertyName = ''TZID''"

definition NewDateTime :: "Time \<Rightarrow> DateTime" where
  "NewDateTime tm = \<lparr>t = TruncateSecond tm\<rparr>"

definition Equals :: "DateTime \<Rightarrow> DateTime \<Rightarrow> bool" where
  "Equals d test = Equal (t d) (t test)"

definition NativeTime :: "DateTime \<Rightarrow> Time" where
  "NativeTime d = t d"

definition hasSuffixZ :: "string \<Rightarrow> bool" where
  "hasSuffixZ value = (value \<noteq> [] \<and> last value = CHR ''Z'')"

definition EncodeICalValue :: "DateTime \<Rightarrow> string \<times> go_error option" where
  "EncodeICalValue d =
     (let val = Format (t d) DateTimeFormatString;
          loc = Location (t d)
      in (if loc = UTC then val @ ''Z'' else val, None))"

text \<open>
  The result of the parse is assigned to \<^verbatim>\<open>d.t\<close> before the error is looked at, and a
  failed \<^verbatim>\<open>time.ParseInLocation\<close> returns the zero \<^verbatim>\<open>Time\<close>.
\<close>

definition DecodeICalValue :: "DateTime \<Rightarrow> string \<Rightarrow> DateTime \<times> go_error option" where
  "DecodeICalValue d value =
     (let layout =
            (if hasSuffixZ value then UTCDateTimeFormatString
             else if length value = 8 then DateFormatString
             else DateTimeFormatString)
      in case ParseInLocation layout value UTC of
           Inl err \<Rightarrow>
             (let d' = d\<lparr>t := zeroTime\<rparr>
              in (d', Some (NewError d_DecodeICalValue
                    ''unable to parse datetime value'' (DateTimeInstance d')
                    (Some (TimeParseError err)))))
         | Inr tm \<Rightarrow> (d\<lparr>t := tm\<rparr>, None))"


definition DecodeICalParams :: "tzenv \<Rightarrow> DateTime \<Rightarrow> Params \<Rightarrow> DateTime \<times> go_error option" where
  "DecodeICalParams env d params =
     (let layout = DateTimeFormatString;
          value = Format (t d) layout
      in case params TimeZoneIdPropertyName of
           None \<Rightarrow> (d, None)
         | Some name \<Rightarrow>
             (case LoadLocation env name of
                Inl err \<Rightarrow>
                  (d, Some (NewError d_DecodeICalValue ''unable to parse timezone''
                        (DateTimeInstance d) (Some (LocationError err))))
              | Inr loc \<Rightarrow>
                  (case ParseInLocation layout value loc of
                     Inl err \<Rightarrow>
                       (d, Some (NewError d_DecodeICalValue
                             ''unable to parse datetime value'' (DateTimeInstance d)
                             (Some (TimeParseError err))))
                   | Inr tm \<Rightarrow> (d\<lparr>t := tm\<rparr>, None))))"

fun isLocal :: "location \<Rightarrow> bool" where
  "isLocal (Local name z) = True"
| "isLocal loc = False"

definition ValidateICalValue :: "DateTime \<Rightarrow> go_error option" where
  "ValidateICalValue d =
     (let loc = Location (t d)
      in if isLocal loc then
           Some (NewError d_ValidateICalValue
             ''DateTime location may not Local, please use UTC or explicit Location''
             (DateTimeInstance d) None)
         else if locString loc = [] then
           Some (NewError d_ValidateICalValue
             ''DateTime location must have a valid name'' (DateTimeInstance d) None)
         else None)"



text \<open>\<^verbatim>\<open>fmt.Sprintf\<close> with \<^verbatim>\<open>%d\<close> at a slice index.\<close>

definition sprintIndex :: "string \<Rightarrow> nat \<Rightarrow> string" where
  "sprintIndex msg i = msg @ appendInt (int i) 0"

text \<open>
  \<^verbatim>\<open>DateTimes.DecodeICalParams\<close>: the loop over the slice, from index \<open>i\<close> on. Each
  element is decoded in place in the store; the first failure returns.
\<close>

fun decodeParamsFrom ::
  "tzenv \<Rightarrow> Params \<Rightarrow> DateTimes \<Rightarrow> nat \<Rightarrow> DateTimes \<Rightarrow> store \<Rightarrow> store \<times> go_error option" where
  "decodeParamsFrom env params ds i [] s = (s, None)"
| "decodeParamsFrom env params ds i (a # rest) s =
     (case DecodeICalParams env (objs s a) params of
        (d', Some err) \<Rightarrow>
          (s\<lparr>objs := (objs s)(a := d')\<rparr>,
           Some (NewError ds_DecodeICalValue
             (sprintIndex ''unable to decode datetime params for index '' i)
             (DateTimesInstance ds) (Some err)))
      | (d', None) \<Rightarrow>
          decodeParamsFrom env params ds (i + 1) rest (s\<lparr>objs := (objs s)(a := d')\<rparr>))"

definition DateTimes_DecodeICalParams ::
  "tzenv \<Rightarrow> DateTimes \<Rightarrow> Params \<Rightarrow> store \<Rightarrow> store \<times> go_error option" where
  "DateTimes_DecodeICalParams env ds params s = decodeParamsFrom env params ds 0 ds s"

text \<open>
  \<^verbatim>\<open>DateTimes.DecodeICalValue\<close>: the loop over the tokens, from index \<open>i\<close> on. Each token
  is decoded into a new object, which is appended to the slice when the decode succeeds;
  the error of a failure points to the slice as it stands then.
\<close>

fun decodeValuesFrom ::
  "nat \<Rightarrow> string list \<Rightarrow> DateTimes \<Rightarrow> store \<Rightarrow> DateTimes \<times> store \<times> go_error option" where
  "decodeValuesFrom i [] ds s = (ds, s, None)"
| "decodeValuesFrom i (value # rest) ds s =
     (let a = nextAddr s;
          s' = s\<lparr>nextAddr := a + 1\<rparr>
      in case DecodeICalValue \<lparr>t = zeroTime\<rparr> value of
           (d, Some err) \<Rightarrow>
             (ds, s'\<lparr>objs := (objs s')(a := d)\<rparr>,
              Some (NewError ds_DecodeICalValue
                (sprintIndex ''unable to decode datetime at index '' i)
                (DateTimesInstance ds) (Some err)))
         | (d, None) \<Rightarrow>
             decodeValuesFrom (i + 1) rest (ds @ [a]) (s'\<lparr>objs := (objs s')(a := d)\<rparr>))"

text \<open>
  The list codec \<^verbatim>\<open>CSV.DecodeICalValue\<close> is not among the source files; it is the
  parameter \<open>csv\<close>, which splits a text into tokens or fails.
\<close>

definition DateTimes_DecodeICalValue ::
  "(string \<Rightarrow> go_error + string list) \<Rightarrow> DateTimes \<Rightarrow> string \<Rightarrow> store
     \<Rightarrow> DateTimes \<times> store \<times> go_error option" where
  "DateTimes_DecodeICalValue csv ds value s =
     (case csv value of
        Inl err \<Rightarrow>
          (ds, s, Some (NewError ds_DecodeICalValue
             ''unable to decode datetime list as CSV'' (DateTimesInstance ds) (Some err)))
      | Inr tokens \<Rightarrow> decodeValuesFrom 0 tokens ds s)"

text \<open>
  Modelled from the spec: the list codec's decode (\<^verbatim>\<open>CSV.DecodeICalValue\<close>, not among the
  source files) on texts without escape characters, where it cuts the text at its commas
  and never fails. It is one value of the parameter \<open>csv\<close>, used to run the list decoder
  on concrete texts.
\<close>

fun splitOn :: "char \<Rightarrow> string \<Rightarrow> string list" where
  "splitOn c [] = [[]]"
| "splitOn c (x # xs) =
     (if x = c then [] # splitOn c xs
      else case splitOn c xs of
             [] \<Rightarrow> [[x]]
           | y # ys \<Rightarrow> (x # y) # ys)"

definition csvSplit :: "string \<Rightarrow> go_error + string list" where
  "csvSplit value = Inr (splitOn (CHR '','') value)"

section \<open>Facts about the model\<close>

subsection \<open>Facts about the calendar arithmetic\<close>

lemma yearFrom_spec:
  "daysBeforeYear y \<le> n \<Longrightarrow>
   daysBeforeYear (yearFrom y n) \<le> n \<and> n < daysBeforeYear (yearFrom y n + 1)"
proof (induction y n rule: yearFrom.induct)
  case (1 y n)
  show ?case
  proof (cases "daysBeforeYear (y + 1) \<le> n")
    case True
    with "1.IH" have "daysBeforeYear (yearFrom (y + 1) n) \<le> n
        \<and> n < daysBeforeYear (yearFrom (y + 1) n + 1)"
      by simp
    moreover have "yearFrom y n = yearFrom (y + 1) n"
      using True by (subst yearFrom.simps) simp
    ultimately show ?thesis by simp
  next
    case False
    then have "yearFrom y n = y" by (subst yearFrom.simps) simp
    with False "1.prems" show ?thesis by simp
  qed
qed

lemma yearOfDay_start_nonneg:
  assumes "0 \<le> (n::int)"
  shows "daysBeforeYear (n div 366 + 1) \<le> n"
proof -
  define Y where "Y = n div 366"
  have Y0: "0 \<le> Y" using assms by (simp add: Y_def pos_imp_zdiv_nonneg_iff)
  have a: "Y div 4 \<le> Y" using zdiv_mono2 [of Y 1 4] Y0 by simp
  have b: "Y div 400 \<le> Y div 100" using zdiv_mono2 [of Y 100 400] Y0 by simp
  define r where "r = n mod 366"
  have "n = 366 * Y + r" "0 \<le> r" by (simp_all add: Y_def r_def)
  then have c: "366 * Y \<le> n" by linarith
  define a4 a100 a400 where "a4 = Y div 4" and "a100 = Y div 100" and "a400 = Y div 400"
  have "daysBeforeYear (Y + 1) = 365 * Y + a4 - a100 + a400"
    by (simp add: daysBeforeYear_def Let_def a4_def a100_def a400_def)
  moreover have "a4 \<le> Y" "a400 \<le> a100" using a b by (simp_all add: a4_def a100_def a400_def)
  moreover have "365 * Y + a4 - a100 + a400 \<le> n"
    using \<open>a4 \<le> Y\<close> \<open>a400 \<le> a100\<close> c Y0 by linarith
  ultimately show ?thesis unfolding Y_def [symmetric] by (simp only:)
qed

lemma yearOfDay_start_neg:
  assumes "(n::int) < 0"
  shows "daysBeforeYear (n div 365) \<le> n"
proof -
  define Y where "Y = n div 365 - 1"
  have "n div 365 < 0" using assms by (simp add: neg_imp_zdiv_neg_iff)
  then have Y0: "Y < 0" by (simp add: Y_def)
  have a: "Y div 4 \<le> Y div 100" using zdiv_mono2_neg [of Y 4 100] Y0 by simp
  have b: "Y div 400 < 0" using Y0 by (simp add: neg_imp_zdiv_neg_iff)
  define q r where "q = n div 365" and "r = n mod 365"
  have "n = 365 * q + r" "0 \<le> r" by (simp_all add: q_def r_def)
  then have "365 * q \<le> n" by linarith
  then have c: "365 * (Y + 1) \<le> n" by (simp add: Y_def q_def)
  define a4 a100 a400 where "a4 = Y div 4" and "a100 = Y div 100" and "a400 = Y div 400"
  have "daysBeforeYear (n div 365) = 365 * Y + a4 - a100 + a400"
    by (simp add: daysBeforeYear_def Y_def Let_def a4_def a100_def a400_def)
  moreover have "a4 \<le> a100" "a400 < 0" using a b by (simp_all add: a4_def a100_def a400_def)
  moreover have "365 * Y + a4 - a100 + a400 \<le> n"
    using \<open>a4 \<le> a100\<close> \<open>a400 < 0\<close> c by (simp add: algebra_simps)
  ultimately show ?thesis by (simp only:)
qed

lemma yearOfDay_spec:
  "daysBeforeYear (yearOfDay n) \<le> n \<and> n < daysBeforeYear (yearOfDay n + 1)"
proof (cases "n < 0")
  case True
  then show ?thesis
    unfolding yearOfDay_def using yearFrom_spec [OF yearOfDay_start_neg [OF True]] by simp
next
  case False
  then have "0 \<le> n" by simp
  from yearFrom_spec [OF yearOfDay_start_nonneg [OF this]] False show ?thesis
    unfolding yearOfDay_def by simp
qed


lemma monthDay_nonleap:
  assumes "0 \<le> d" "d < 365"
  shows "1 \<le> monthOfYday d \<and> monthOfYday d \<le> 12
     \<and> daysBefore ! nat (monthOfYday d - 1) \<le> d
     \<and> d < daysBefore ! nat (monthOfYday d)"
  using assms unfolding monthOfYday_def by (simp add: daysBefore_def)

lemma monthDay_spec:
  assumes "0 \<le> yd" "yd < (if isLeap y then 366 else 365)"
  shows "1 \<le> fst (monthDay y yd) \<and> fst (monthDay y yd) \<le> 12
     \<and> 1 \<le> snd (monthDay y yd) \<and> snd (monthDay y yd) \<le> daysIn (fst (monthDay y yd)) y
     \<and> daysBefore ! nat (fst (monthDay y yd) - 1)
          + (if isLeap y \<and> fst (monthDay y yd) \<ge> 3 then 1 else 0)
          + (snd (monthDay y yd) - 1) = yd"
proof (cases "isLeap y")
  case False
  with assms have r: "yd < 365" by simp
  have md: "monthDay y yd = (monthOfYday yd, yd - daysBefore ! nat (monthOfYday yd - 1) + 1)"
    using False by (simp add: monthDay_def Let_def)
  have di: "daysIn (monthOfYday yd) y
      = daysBefore ! nat (monthOfYday yd) - daysBefore ! nat (monthOfYday yd - 1)"
    using False by (simp add: daysIn_def)
  show ?thesis
    using monthDay_nonleap [OF assms(1) r] False unfolding md by (simp add: di)
next
  case True
  with assms have r: "yd < 366" by simp
  consider "yd = 59" | "yd < 59" | "59 < yd" by linarith
  then show ?thesis
  proof cases
    case 1
    then show ?thesis using True by (simp add: monthDay_def daysIn_def daysBefore_def)
  next
    case 2
    then have md: "monthDay y yd = (monthOfYday yd, yd - daysBefore ! nat (monthOfYday yd - 1) + 1)"
      using True by (simp add: monthDay_def Let_def)
    have lt: "yd < 365" using 2 by simp
    have m: "monthOfYday yd \<le> 2" using 2 by (simp add: monthOfYday_def)
    have di: "snd (monthDay y yd) \<le> daysIn (monthOfYday yd) y"
      using 2 assms(1) unfolding md by (simp add: daysIn_def monthOfYday_def daysBefore_def)
    show ?thesis
      using monthDay_nonleap [OF assms(1) lt] True m di unfolding md by simp
  next
    case 3
    then have md: "monthDay y yd
        = (monthOfYday (yd - 1), yd - 1 - daysBefore ! nat (monthOfYday (yd - 1) - 1) + 1)"
      using True by (simp add: monthDay_def Let_def)
    have ge: "0 \<le> yd - 1" and lt: "yd - 1 < 365" using 3 r by simp_all
    have m: "3 \<le> monthOfYday (yd - 1)" using 3 by (simp add: monthOfYday_def)
    have di: "daysIn (monthOfYday (yd - 1)) y
        = daysBefore ! nat (monthOfYday (yd - 1)) - daysBefore ! nat (monthOfYday (yd - 1) - 1)"
      using m by (simp add: daysIn_def)
    show ?thesis
      using monthDay_nonleap [OF ge lt] True m unfolding md by (simp add: di)
  qed
qed

lemma civil_spec:
  assumes "civil n = (y, m, d)"
  shows "1 \<le> m \<and> m \<le> 12 \<and> 1 \<le> d \<and> d \<le> daysIn m y \<and> dayNumber y m d = n"
proof -
  have y: "y = yearOfDay n" and md: "monthDay y (n - daysBeforeYear y) = (m, d)"
    using assms by (auto simp: civil_def Let_def split: prod.splits)
  from yearOfDay_spec [of n] have "0 \<le> n - daysBeforeYear y"
    and "n - daysBeforeYear y < (if isLeap y then 366 else 365)"
    unfolding y [symmetric] daysBeforeYear_step by (simp_all split: if_splits)
  from monthDay_spec [OF this] show ?thesis
    unfolding md dayNumber_def by simp
qed

subsection \<open>Facts about layouts and digits\<close>


lemma layoutChunks_DateTime:
  "layoutChunks DateTimeFormatString =
     [stdLongYear, stdZeroMonth, stdZeroDay, Literal CHR ''T'', stdHour, stdZeroMinute, stdZeroSecond]"
  by (simp add: DateTimeFormatString_def)

lemma layoutChunks_UTCDateTime:
  "layoutChunks UTCDateTimeFormatString =
     [stdLongYear, stdZeroMonth, stdZeroDay, Literal CHR ''T'', stdHour, stdZeroMinute, stdZeroSecond,
      Literal CHR ''Z'']"
  by (simp add: UTCDateTimeFormatString_def)

lemma of_char_digitChar:
  assumes "0 \<le> n" "n < 10"
  shows "(of_char (digitChar n) :: int) = 48 + n"
proof -
  have "(of_char (digitChar n) :: int) = (48 + n) mod 256"
    by (simp add: digitChar_def)
  moreover have "(48 + n) mod 256 = 48 + n"
    using assms by (intro mod_pos_pos_trivial) simp_all
  ultimately show ?thesis by simp
qed

lemma isDigitChar_digitChar: "0 \<le> n \<Longrightarrow> n < 10 \<Longrightarrow> isDigitChar (digitChar n)"
  by (simp add: isDigitChar_def of_char_digitChar)

lemma digitVal_digitChar: "0 \<le> n \<Longrightarrow> n < 10 \<Longrightarrow> digitVal (digitChar n) = n"
  by (simp add: digitVal_def of_char_digitChar)

lemma digitChar_neq: "0 \<le> n \<Longrightarrow> n < 10 \<Longrightarrow> \<not> isDigitChar c \<Longrightarrow> digitChar n \<noteq> c"
  using isDigitChar_digitChar [of n] by auto

lemma not_digit_chars:
  "\<not> isDigitChar CHR ''Z''" "\<not> isDigitChar CHR ''T''" "\<not> isDigitChar CHR ''-''"
  "\<not> isDigitChar CHR ''+''" "\<not> isDigitChar CHR ''.''" "\<not> isDigitChar CHR '',''"
  by (simp_all add: isDigitChar_def)

lemma digits_lt10: "n < 10 \<Longrightarrow> digits n = [digitChar n]"
  by (subst digits.simps) simp

lemma digits_ge10: "\<not> n < 10 \<Longrightarrow> digits n = digits (n div 10) @ [digitChar (n mod 10)]"
  by (subst digits.simps) simp

lemma digitChar_0: "digitChar 0 = CHR ''0''"
  by code_simp

lemma div10_bounds:
  fixes x k :: int
  assumes "0 \<le> x" "x < 10 * k"
  shows "0 \<le> x div 10" "x div 10 < k" "0 \<le> x mod 10" "x mod 10 < 10"
proof -
  define q r where "q = x div 10" and "r = x mod 10"
  have "x = 10 * q + r" "0 \<le> r" "r < 10" by (simp_all add: q_def r_def)
  with assms have "0 \<le> q" "q < k" by linarith+
  then show "0 \<le> x div 10" "x div 10 < k" by (simp_all add: q_def)
  show "0 \<le> x mod 10" "x mod 10 < 10" by simp_all
qed

lemma rep:
  "replicate 3 c = [c, c, c]" "replicate 2 c = [c, c]"
  by (simp_all add: numeral_3_eq_3 numeral_2_eq_2)

text \<open>The digits of a number below 100 or below 10000, with the zeros that pad them.\<close>

lemma pad_digits_2:
  assumes "0 \<le> n" "n < 100"
  shows "replicate (2 - length (digits n)) CHR ''0'' @ digits n
     = [digitChar (n div 10), digitChar (n mod 10)]"
proof (cases "n < 10")
  case True
  then have "n div 10 = 0" "n mod 10 = n" using assms(1) by simp_all
  with True show ?thesis by (simp add: digits_lt10 digitChar_0)
next
  case False
  have "n div 10 < 10" using div10_bounds(2) [of n 10] assms by simp
  with False show ?thesis by (simp add: digits_ge10 digits_lt10)
qed

lemma appendInt_2:
  assumes "0 \<le> x" "x < 100"
  shows "appendInt x 2 = [digitChar (x div 10), digitChar (x mod 10)]"
proof -
  have "\<bar>x\<bar> = x" "\<not> x < 0" using assms by simp_all
  then show ?thesis
    unfolding appendInt_def Let_def using pad_digits_2 [OF assms] by simp
qed

lemma getnum_pair:
  assumes "0 \<le> a" "a < 10" "0 \<le> b" "b < 10"
  shows "getnum (digitChar a # digitChar b # rest) fixed = Some (a * 10 + b, rest)"
  using assms by (simp add: getnum_def isDigit_def isDigitChar_digitChar digitVal_digitChar)

lemma getnum_appendInt_2:
  assumes "0 \<le> x" "x < 100"
  shows "getnum (appendInt x 2 @ rest) fixed = Some (x, rest)"
proof -
  have b: "0 \<le> x div 10" "x div 10 < 10" "0 \<le> x mod 10" "x mod 10 < 10"
    using div10_bounds [of x 10] assms by simp_all
  have "x div 10 * 10 + x mod 10 = x" by simp
  with getnum_pair [OF b, of rest fixed] show ?thesis
    by (simp add: appendInt_2 [OF assms])
qed

lemma pad_digits_4:
  assumes "0 \<le> n" "n < 10000"
  defines "q1 \<equiv> n div 10"
  defines "q2 \<equiv> q1 div 10"
  defines "q3 \<equiv> q2 div 10"
  shows "replicate (4 - length (digits n)) CHR ''0'' @ digits n
     = [digitChar q3, digitChar (q2 mod 10), digitChar (q1 mod 10), digitChar (n mod 10)]"
proof -
  have q1: "0 \<le> q1" "q1 < 1000" using div10_bounds(1,2) [of n 1000] assms(1,2) by (simp_all add: q1_def)
  have q2: "0 \<le> q2" "q2 < 100" using div10_bounds(1,2) [of q1 100] q1 by (simp_all add: q2_def)
  have q3: "0 \<le> q3" "q3 < 10" using div10_bounds(1,2) [of q2 10] q2 by (simp_all add: q3_def)
  show ?thesis
  proof (cases "n < 10")
    case True
    then have "q1 = 0" "n mod 10 = n" using assms(1) by (simp_all add: q1_def)
    then have "q2 = 0" "q3 = 0" by (simp_all add: q2_def q3_def)
    with True \<open>q1 = 0\<close> \<open>n mod 10 = n\<close> show ?thesis
      by (simp add: digits_lt10 digitChar_0 rep)
  next
    case n10: False
    then have d0: "digits n = digits q1 @ [digitChar (n mod 10)]"
      by (simp add: digits_ge10 q1_def)
    show ?thesis
    proof (cases "q1 < 10")
      case True
      then have "q2 = 0" "q1 mod 10 = q1" using q1(1) by (simp_all add: q2_def)
      then have "q3 = 0" by (simp add: q3_def)
      with True \<open>q2 = 0\<close> \<open>q1 mod 10 = q1\<close> show ?thesis
        by (simp add: d0 digits_lt10 digitChar_0 rep)
    next
      case q10: False
      then have d1: "digits q1 = digits q2 @ [digitChar (q1 mod 10)]"
        by (simp add: digits_ge10 q2_def)
      show ?thesis
      proof (cases "q2 < 10")
        case True
        then have "q3 = 0" "q2 mod 10 = q2" using q2(1) by (simp_all add: q3_def)
        with True show ?thesis by (simp add: d0 d1 digits_lt10 digitChar_0)
      next
        case False
        then have d2: "digits q2 = digits q3 @ [digitChar (q2 mod 10)]"
          by (simp add: digits_ge10 q3_def)
        show ?thesis using q3(2) by (simp add: d0 d1 d2 digits_lt10)
      qed
    qed
  qed
qed

lemma quad_value:
  fixes x :: int
  shows "((x div 10 div 10 div 10 * 10 + x div 10 div 10 mod 10) * 10
           + x div 10 mod 10) * 10 + x mod 10 = x"
proof -
  define q1 q2 q3 where "q1 = x div 10" and "q2 = q1 div 10" and "q3 = q2 div 10"
  define r0 r1 r2 where "r0 = x mod 10" and "r1 = q1 mod 10" and "r2 = q2 mod 10"
  have "x = 10 * q1 + r0" "q1 = 10 * q2 + r1" "q2 = 10 * q3 + r2"
    by (simp_all add: q1_def q2_def q3_def r0_def r1_def r2_def)
  then have "((q3 * 10 + r2) * 10 + r1) * 10 + r0 = x" by (simp add: algebra_simps)
  then show ?thesis
    by (simp only: r0_def r1_def r2_def q3_def q2_def q1_def)
qed

lemma parseStd_year:
  assumes "0 \<le> y" "y \<le> 9999"
  shows "parseStd stdLongYear (appendInt y 4 @ rest) p = Inr (rest, p\<lparr>pYear := y\<rparr>)"
proof -
  define a b c d where "a = y div 10 div 10 div 10" and "b = y div 10 div 10 mod 10"
    and "c = y div 10 mod 10" and "d = y mod 10"
  have q1: "0 \<le> y div 10" "y div 10 < 1000" using div10_bounds(1,2) [of y 1000] assms by simp_all
  have q2: "0 \<le> y div 10 div 10" "y div 10 div 10 < 100"
    using div10_bounds(1,2) [of "y div 10" 100] q1 by simp_all
  have q3: "0 \<le> a" "a < 10" using div10_bounds(1,2) [of "y div 10 div 10" 10] q2 by (simp_all add: a_def)
  have lt: "0 \<le> b" "b < 10" "0 \<le> c" "c < 10" "0 \<le> d" "d < 10"
    by (simp_all add: b_def c_def d_def)
  have "\<bar>y\<bar> = y" "\<not> y < 0" using assms by simp_all
  then have f: "appendInt y 4 = [digitChar a, digitChar b, digitChar c, digitChar d]"
    unfolding appendInt_def Let_def a_def b_def c_def d_def
    using pad_digits_4 [of y] assms by simp
  have v: "((a * 10 + b) * 10 + c) * 10 + d = y"
    using quad_value [of y] by (simp only: a_def b_def c_def d_def)
  have "atoi [digitChar a, digitChar b, digitChar c, digitChar d] = Some y"
    using q3 lt digitChar_neq [OF q3 not_digit_chars(3)] digitChar_neq [OF q3 not_digit_chars(4)] v
    by (simp add: atoi_def isDigitChar_digitChar digitVal_digitChar algebra_simps)
  then show ?thesis
    using q3 lt by (simp add: f isDigit_def isDigitChar_digitChar)
qed

subsection \<open>Facts about the fields of an instant\<close>

lemma clock_bounds:
  fixes r :: int
  assumes "0 \<le> r" "r < 86400"
  defines "h \<equiv> r div 3600"
  defines "mi \<equiv> (r - h * 3600) div 60"
  defines "s \<equiv> r - h * 3600 - mi * 60"
  shows "0 \<le> h \<and> h < 24 \<and> 0 \<le> mi \<and> mi < 60 \<and> 0 \<le> s \<and> s < 60"
proof -
  define r1 where "r1 = r mod 3600"
  have a: "r = 3600 * h + r1" "0 \<le> r1" "r1 < 3600"
    unfolding h_def r1_def by simp_all
  have r1: "r - h * 3600 = r1" using a(1) by simp
  define r2 where "r2 = r1 mod 60"
  have b: "r1 = 60 * mi + r2" "0 \<le> r2" "r2 < 60"
    unfolding mi_def r1 r2_def by simp_all
  have s: "s = r2" unfolding s_def r1 using b(1) by simp
  have "0 \<le> h" "h < 24" using a assms(1,2) by linarith+
  moreover have "0 \<le> mi" "mi < 60" using b a(2,3) by linarith+
  ultimately show ?thesis using s b(2,3) by simp
qed

lemma Hour_bounds: "0 \<le> Hour tm \<and> Hour tm < 24"
  and Minute_bounds: "0 \<le> Minute tm \<and> Minute tm < 60"
  and Second_bounds: "0 \<le> Second tm \<and> Second tm < 60"
  using clock_bounds [of "localSec tm mod 86400"]
  unfolding Hour_def Minute_def Second_def secondsPerDay_def by simp_all

lemma clock_sum:
  "Hour tm * 3600 + Minute tm * 60 + Second tm = localSec tm mod secondsPerDay"
  unfolding Second_def by simp

lemma daysIn_le_31:
  assumes "1 \<le> m" "m \<le> 12"
  shows "daysIn m y \<le> 31"
proof -
  from assms have "m = 1 \<or> m = 2 \<or> m = 3 \<or> m = 4 \<or> m = 5 \<or> m = 6 \<or> m = 7 \<or> m = 8
      \<or> m = 9 \<or> m = 10 \<or> m = 11 \<or> m = 12" by presburger
  then show ?thesis
    by (elim disjE) (simp_all add: daysIn_def daysBefore_def)
qed

lemma dateOf_spec:
  "1 \<le> Month tm \<and> Month tm \<le> 12 \<and> 1 \<le> Day tm \<and> Day tm \<le> daysIn (Month tm) (Year tm)
     \<and> dayNumber (Year tm) (Month tm) (Day tm) = localSec tm div secondsPerDay + unixEpochDay"
  using civil_spec [of "localSec tm div secondsPerDay + unixEpochDay" "Year tm" "Month tm" "Day tm"]
  unfolding Year_def Month_def Day_def dateOf_def by simp

lemma Day_bounds: "1 \<le> Day tm \<and> Day tm \<le> 31"
  using dateOf_spec [of tm] daysIn_le_31 [of "Month tm" "Year tm"] by linarith


lemma Format_DateTime:
  "Format tm DateTimeFormatString =
     appendInt (Year tm) 4 @ appendInt (Month tm) 2 @ appendInt (Day tm) 2 @ ''T''
       @ appendInt (Hour tm) 2 @ appendInt (Minute tm) 2 @ appendInt (Second tm) 2"
  by (simp add: Format_def layoutChunks_DateTime)



lemma hasSuffixZ_snoc: "hasSuffixZ (s @ ''Z'')"
  by (simp add: hasSuffixZ_def)

subsection \<open>Facts about parsing\<close>

lemma Location_Date: "Location (Date y m d h mi s ns loc) = loc"
  by (simp add: Date_def Let_def split: prod.splits)



lemma ParseInLocation_Inr:
  assumes "ParseInLocation layout value loc = Inr tm"
  shows "\<exists>p. parseChunks (layoutChunks layout) value parsedInit = Inr p
           \<and> tm = Date (pYear p) (if pMonth p < 0 then 1 else pMonth p)
                    (if pDay p < 0 then 1 else pDay p) (pHour p) (pMin p) (pSec p) (pNsec p) loc"
proof (cases "parseChunks (layoutChunks layout) value parsedInit")
  case (Inl f)
  then show ?thesis using assms by (simp add: ParseInLocation_def)
next
  case (Inr p)
  then show ?thesis using assms by (simp add: ParseInLocation_def Let_def split: if_splits)
qed

lemma ParseInLocation_Location:
  "ParseInLocation layout value loc = Inr tm \<Longrightarrow> Location tm = loc"
  using ParseInLocation_Inr [of layout "value" loc tm] by (auto simp: Location_Date)

lemma ParseInLocation_Inl:
  assumes "ParseInLocation layout value loc = Inl err"
  shows "peLayout err = layout \<and> peValue err = value"
proof (cases "parseChunks (layoutChunks layout) value parsedInit")
  case (Inl f)
  then show ?thesis using assms by (auto simp: ParseInLocation_def)
next
  case (Inr p)
  then show ?thesis using assms by (auto simp: ParseInLocation_def Let_def split: if_splits)
qed





subsection \<open>Facts about the loops over a list\<close>

lemma decodeValuesFrom_run:
  assumes "k \<le> length tokens"
    and "\<forall>j<k. snd (DecodeICalValue \<lparr>t = zeroTime\<rparr> (tokens ! j)) = None"
    and "k < length tokens \<longrightarrow> snd (DecodeICalValue \<lparr>t = zeroTime\<rparr> (tokens ! k)) \<noteq> None"
  shows "\<exists>s'. decodeValuesFrom i tokens ds s =
           (ds @ [nextAddr s..<nextAddr s + k], s',
            if k < length tokens
            then Some (NewError ds_DecodeICalValue
                   (sprintIndex ''unable to decode datetime at index '' (i + k))
                   (DateTimesInstance (ds @ [nextAddr s..<nextAddr s + k]))
                   (snd (DecodeICalValue \<lparr>t = zeroTime\<rparr> (tokens ! k))))
            else None)
         \<and> (\<forall>j<k. objs s' (nextAddr s + j) = fst (DecodeICalValue \<lparr>t = zeroTime\<rparr> (tokens ! j)))
         \<and> (\<forall>a<nextAddr s. objs s' a = objs s a)"
  using assms
proof (induction tokens arbitrary: k i ds s)
  case Nil
  then show ?case by simp
next
  case (Cons tok rest)
  obtain d e where dec: "DecodeICalValue \<lparr>t = zeroTime\<rparr> tok = (d, e)" by (cases "DecodeICalValue \<lparr>t = zeroTime\<rparr> tok")
  show ?case
  proof (cases k)
    case 0
    with Cons.prems(3) dec obtain err where e: "e = Some err" by auto
    show ?thesis using 0 dec e by (simp add: Let_def)
  next
    case (Suc k')
    with Cons.prems(2) dec have e: "e = None" by fastforce
    define s1 where "s1 = s\<lparr>nextAddr := nextAddr s + 1, objs := (objs s)(nextAddr s := d)\<rparr>"
    have step: "decodeValuesFrom i (tok # rest) ds s = decodeValuesFrom (i + 1) rest (ds @ [nextAddr s]) s1"
      using dec e by (simp add: Let_def s1_def)
    have p1: "k' \<le> length rest" using Cons.prems(1) Suc by simp
    have p2: "\<forall>j<k'. snd (DecodeICalValue \<lparr>t = zeroTime\<rparr> (rest ! j)) = None"
      using Cons.prems(2) Suc by fastforce
    have p3: "k' < length rest \<longrightarrow> snd (DecodeICalValue \<lparr>t = zeroTime\<rparr> (rest ! k')) \<noteq> None"
      using Cons.prems(3) Suc by simp
    from Cons.IH [OF p1 p2 p3, of "i + 1" "ds @ [nextAddr s]" s1]
    obtain s' where r: "decodeValuesFrom (i + 1) rest (ds @ [nextAddr s]) s1 =
           ((ds @ [nextAddr s]) @ [nextAddr s1..<nextAddr s1 + k'], s',
            if k' < length rest
            then Some (NewError ds_DecodeICalValue
                   (sprintIndex ''unable to decode datetime at index '' (i + 1 + k'))
                   (DateTimesInstance ((ds @ [nextAddr s]) @ [nextAddr s1..<nextAddr s1 + k']))
                   (snd (DecodeICalValue \<lparr>t = zeroTime\<rparr> (rest ! k'))))
            else None)"
      and o1: "\<forall>j<k'. objs s' (nextAddr s1 + j) = fst (DecodeICalValue \<lparr>t = zeroTime\<rparr> (rest ! j))"
      and o2: "\<forall>a<nextAddr s1. objs s' a = objs s1 a"
      by blast
    have n1: "nextAddr s1 = nextAddr s + 1" by (simp add: s1_def)
    have l: "(ds @ [nextAddr s]) @ [nextAddr s1..<nextAddr s1 + k'] = ds @ [nextAddr s..<nextAddr s + k]"
      unfolding n1 Suc by (simp add: upt_conv_Cons)
    have a: "\<forall>j<k. objs s' (nextAddr s + j) = fst (DecodeICalValue \<lparr>t = zeroTime\<rparr> ((tok # rest) ! j))"
    proof (intro allI impI)
      fix j assume j: "j < k"
      show "objs s' (nextAddr s + j) = fst (DecodeICalValue \<lparr>t = zeroTime\<rparr> ((tok # rest) ! j))"
      proof (cases j)
        case 0
        then show ?thesis using o2 dec by (simp add: n1 s1_def)
      next
        case (Suc j')
        then show ?thesis using o1 j \<open>k = Suc k'\<close> by (simp add: n1)
      qed
    qed
    have b: "\<forall>a<nextAddr s. objs s' a = objs s a"
      using o2 by (simp add: n1 s1_def)
    show ?thesis
      unfolding step r l using a b Suc by simp
  qed
qed

lemma DecodeICalParams_failure:
  assumes "snd (DecodeICalParams env d params) = Some e"
  shows "fst (DecodeICalParams env d params) = d
    \<and> (\<exists>msg c. e = UtilsError d_DecodeICalValue msg (DateTimeInstance d) (Some c) \<and> msg \<noteq> [])"
  using assms
  by (auto simp: DecodeICalParams_def Let_def NewError_def split: option.splits sum.splits)

lemma decodeParamsFrom_run:
  assumes "distinct rest" "k \<le> length rest"
    and "\<forall>j<k. snd (DecodeICalParams env (objs s (rest ! j)) params) = None"
    and "k < length rest \<longrightarrow> snd (DecodeICalParams env (objs s (rest ! k)) params) \<noteq> None"
  shows "\<exists>s'. decodeParamsFrom env params ds i rest s =
           (s', if k < length rest
                then Some (NewError ds_DecodeICalValue
                       (sprintIndex ''unable to decode datetime params for index '' (i + k))
                       (DateTimesInstance ds)
                       (snd (DecodeICalParams env (objs s (rest ! k)) params)))
                else None)
         \<and> (\<forall>j<k. objs s' (rest ! j) = fst (DecodeICalParams env (objs s (rest ! j)) params))
         \<and> (\<forall>a. a \<notin> set (take k rest) \<longrightarrow> objs s' a = objs s a)"
  using assms
proof (induction rest arbitrary: k i s)
  case Nil
  then show ?case by simp
next
  case (Cons a rest)
  obtain d e where dec: "DecodeICalParams env (objs s a) params = (d, e)"
    by (cases "DecodeICalParams env (objs s a) params")
  show ?case
  proof (cases k)
    case 0
    with Cons.prems(4) dec obtain err where e: "e = Some err" by auto
    then have "d = objs s a" using DecodeICalParams_failure [of env "objs s a" params err] dec by simp
    then have "s\<lparr>objs := (objs s)(a := d)\<rparr> = s" by simp
    then show ?thesis using 0 dec e by simp
  next
    case (Suc k')
    with Cons.prems(3) dec have e: "e = None" by fastforce
    define s1 where "s1 = s\<lparr>objs := (objs s)(a := d)\<rparr>"
    have step: "decodeParamsFrom env params ds i (a # rest) s
        = decodeParamsFrom env params ds (i + 1) rest s1"
      using dec e by (simp add: s1_def)
    have notin: "a \<notin> set rest" and dist: "distinct rest" using Cons.prems(1) by simp_all
    have same: "\<And>j. j < length rest \<Longrightarrow> objs s1 (rest ! j) = objs s (rest ! j)"
      using notin by (auto simp: s1_def)
    have p2: "k' \<le> length rest" using Cons.prems(2) Suc by simp
    have p3: "\<forall>j<k'. snd (DecodeICalParams env (objs s1 (rest ! j)) params) = None"
    proof (intro allI impI)
      fix j assume "j < k'"
      then have "snd (DecodeICalParams env (objs s ((a # rest) ! Suc j)) params) = None"
        using Cons.prems(3) Suc by blast
      then show "snd (DecodeICalParams env (objs s1 (rest ! j)) params) = None"
        using same [of j] \<open>j < k'\<close> p2 by simp
    qed
    have p4: "k' < length rest \<longrightarrow> snd (DecodeICalParams env (objs s1 (rest ! k')) params) \<noteq> None"
      using Cons.prems(4) Suc same [of k'] by simp
    from Cons.IH [OF dist p2 p3 p4, of "i + 1"]
    obtain s' where r: "decodeParamsFrom env params ds (i + 1) rest s1 =
           (s', if k' < length rest
                then Some (NewError ds_DecodeICalValue
                       (sprintIndex ''unable to decode datetime params for index '' (i + 1 + k'))
                       (DateTimesInstance ds)
                       (snd (DecodeICalParams env (objs s1 (rest ! k')) params)))
                else None)"
      and o1: "\<forall>j<k'. objs s' (rest ! j) = fst (DecodeICalParams env (objs s1 (rest ! j)) params)"
      and o2: "\<forall>b. b \<notin> set (take k' rest) \<longrightarrow> objs s' b = objs s1 b"
      by blast
    have a_notin: "a \<notin> set (take k' rest)" using notin by (auto dest: in_set_takeD)
    have c1: "\<forall>j<k. objs s' ((a # rest) ! j)
        = fst (DecodeICalParams env (objs s ((a # rest) ! j)) params)"
    proof (intro allI impI)
      fix j assume j: "j < k"
      show "objs s' ((a # rest) ! j) = fst (DecodeICalParams env (objs s ((a # rest) ! j)) params)"
      proof (cases j)
        case 0
        then show ?thesis using o2 a_notin dec by (simp add: s1_def)
      next
        case (Suc j')
        then have "j' < k'" using j \<open>k = Suc k'\<close> by simp
        then show ?thesis using o1 same [of j'] p2 Suc by simp
      qed
    qed
    have c2: "\<forall>b. b \<notin> set (take k (a # rest)) \<longrightarrow> objs s' b = objs s b"
      using o2 Suc by (auto simp: s1_def)
    have c3: "k' < length rest \<Longrightarrow> objs s1 (rest ! k') = objs s ((a # rest) ! k)"
      using same [of k'] Suc by simp
    show ?thesis
      unfolding step r using c1 c2 c3 Suc by auto
  qed
qed

subsection \<open>Facts about the errors\<close>

lemma sprintIndex_nonempty: "msg \<noteq> [] \<Longrightarrow> sprintIndex msg i \<noteq> []"
  by (simp add: sprintIndex_def)

lemma DecodeICalValue_error:
  assumes "snd (DecodeICalValue d value) = Some e"
  shows "\<exists>msg c. e = UtilsError d_DecodeICalValue msg
            (DateTimeInstance (fst (DecodeICalValue d value))) (Some c) \<and> msg \<noteq> []"
  using assms
  by (auto simp: DecodeICalValue_def Let_def NewError_def split: sum.splits)

lemma ValidateICalValue_error:
  assumes "ValidateICalValue d = Some e"
  shows "\<exists>msg. e = UtilsError d_ValidateICalValue msg (DateTimeInstance d) None \<and> msg \<noteq> []"
  using assms
  by (auto simp: ValidateICalValue_def Let_def NewError_def split: if_splits)

lemma decodeValuesFrom_error:
  assumes "snd (snd (decodeValuesFrom i tokens ds s)) = Some e"
  shows "\<exists>msg c. e = UtilsError ds_DecodeICalValue msg
            (DateTimesInstance (fst (decodeValuesFrom i tokens ds s))) (Some c) \<and> msg \<noteq> []"
  using assms
proof (induction tokens arbitrary: i ds s)
  case Nil
  then show ?case by simp
next
  case (Cons tok rest)
  obtain d r where dec: "DecodeICalValue \<lparr>t = zeroTime\<rparr> tok = (d, r)"
    by (cases "DecodeICalValue \<lparr>t = zeroTime\<rparr> tok")
  show ?case
  proof (cases r)
    case None
    with dec Cons.prems Cons.IH show ?thesis by (simp add: Let_def)
  next
    case (Some err)
    with dec Cons.prems show ?thesis
      by (auto simp: Let_def NewError_def sprintIndex_def)
  qed
qed

lemma decodeParamsFrom_error:
  assumes "snd (decodeParamsFrom env params ds i rest s) = Some e"
  shows "\<exists>msg c. e = UtilsError ds_DecodeICalValue msg (DateTimesInstance ds) (Some c)
            \<and> msg \<noteq> []"
  using assms
proof (induction rest arbitrary: i s)
  case Nil
  then show ?case by simp
next
  case (Cons a rest)
  obtain d r where dec: "DecodeICalParams env (objs s a) params = (d, r)"
    by (cases "DecodeICalParams env (objs s a) params")
  show ?case
  proof (cases r)
    case None
    with dec Cons.prems Cons.IH show ?thesis by simp
  next
    case (Some err)
    with dec Cons.prems show ?thesis
      by (auto simp: NewError_def sprintIndex_def)
  qed
qed

subsection \<open>Facts about parsing a formatted instant\<close>

lemma parseStd_month:
  assumes "1 \<le> m" "m \<le> 12"
  shows "parseStd stdZeroMonth (appendInt m 2 @ rest) p = Inr (rest, p\<lparr>pMonth := m\<rparr>)"
proof -
  have "getnum (appendInt m 2 @ rest) True = Some (m, rest)"
    using assms by (intro getnum_appendInt_2) simp_all
  then show ?thesis using assms by simp
qed

lemma parseStd_day:
  assumes "0 \<le> x" "x < 100"
  shows "parseStd stdZeroDay (appendInt x 2 @ rest) p = Inr (rest, p\<lparr>pDay := x\<rparr>)"
  using getnum_appendInt_2 [OF assms, of rest True] by simp

lemma parseStd_hour:
  assumes "0 \<le> h" "h < 24"
  shows "parseStd stdHour (appendInt h 2 @ rest) p = Inr (rest, p\<lparr>pHour := h\<rparr>)"
proof -
  have "getnum (appendInt h 2 @ rest) False = Some (h, rest)"
    using assms by (intro getnum_appendInt_2) simp_all
  then show ?thesis using assms by simp
qed

lemma parseStd_minute:
  assumes "0 \<le> m" "m < 60"
  shows "parseStd stdZeroMinute (appendInt m 2 @ rest) p = Inr (rest, p\<lparr>pMin := m\<rparr>)"
proof -
  have "getnum (appendInt m 2 @ rest) True = Some (m, rest)"
    using assms by (intro getnum_appendInt_2) simp_all
  then show ?thesis using assms by simp
qed

lemma parseStd_second:
  assumes "0 \<le> s" "s < 60" "length rest < 2"
  shows "parseStd stdZeroSecond (appendInt s 2 @ rest) p = Inr (rest, p\<lparr>pSec := s\<rparr>)"
proof -
  have "getnum (appendInt s 2 @ rest) True = Some (s, rest)"
    using assms by (intro getnum_appendInt_2) simp_all
  then show ?thesis using assms by simp
qed

lemma parseStd_literal: "parseStd (Literal c) (c # rest) p = Inr (rest, p)"
  by simp

lemma parseChunks_Format:
  assumes "0 \<le> Year tm" "Year tm \<le> 9999"
    and "tail = [] \<and> lits = [] \<or> tail = ''Z'' \<and> lits = [Literal CHR ''Z'']"
  shows "parseChunks
           ([stdLongYear, stdZeroMonth, stdZeroDay, Literal CHR ''T'', stdHour, stdZeroMinute,
             stdZeroSecond] @ lits)
           (Format tm DateTimeFormatString @ tail) parsedInit
         = Inr \<lparr>pYear = Year tm, pMonth = Month tm, pDay = Day tm, pHour = Hour tm,
                pMin = Minute tm, pSec = Second tm, pNsec = 0\<rparr>"
proof -
  have m: "1 \<le> Month tm" "Month tm \<le> 12" using dateOf_spec [of tm] by simp_all
  have d: "0 \<le> Day tm" "Day tm < 100" using Day_bounds [of tm] by simp_all
  have h: "0 \<le> Hour tm" "Hour tm < 24" using Hour_bounds [of tm] by simp_all
  have mi: "0 \<le> Minute tm" "Minute tm < 60" using Minute_bounds [of tm] by simp_all
  have s: "0 \<le> Second tm" "Second tm < 60" using Second_bounds [of tm] by simp_all
  have tl: "length tail < 2" using assms(3) by auto
  have fin: "parseChunks lits tail q = Inr q" for q
    using assms(3) by auto
  show ?thesis
    unfolding Format_DateTime
    using parseStd_year [OF assms(1,2)] parseStd_month [OF m] parseStd_day [OF d]
      parseStd_hour [OF h] parseStd_minute [OF mi] parseStd_second [OF s tl] fin
    by (simp add: parsedInit_def del: parseStd.simps add: parseStd_literal)
qed

lemma wall_sum:
  "(dayNumber (Year tm) (Month tm) (Day tm) - unixEpochDay) * secondsPerDay
      + Hour tm * 3600 + Minute tm * 60 + Second tm = localSec tm"
proof -
  have "dayNumber (Year tm) (Month tm) (Day tm) - unixEpochDay = localSec tm div secondsPerDay"
    using dateOf_spec [of tm] by simp
  moreover have "Hour tm * 3600 + Minute tm * 60 + Second tm = localSec tm mod secondsPerDay"
    by (rule clock_sum)
  moreover have "localSec tm div secondsPerDay * secondsPerDay + localSec tm mod secondsPerDay
      = localSec tm" by simp
  ultimately show ?thesis by (simp only: add.assoc)
qed

lemma Date_resolve:
  assumes "(dayNumber y m d - unixEpochDay) * secondsPerDay + h * 3600 + mi * 60 + s
      = u + fst (lookup loc u)"
    and "fst (lookup loc (u + fst (lookup loc u))) = fst (lookup loc u)"
  shows "Date y m d h mi s ns loc = \<lparr>Unix = u, Nanosecond = ns, Location = loc\<rparr>"
proof (cases "loc = UTC")
  case True
  then show ?thesis using assms(1) by (simp add: Date_def Let_def)
next
  case False
  obtain o1 s1 e1 where l: "lookup loc (u + fst (lookup loc u)) = (o1, s1, e1)"
    by (cases "lookup loc (u + fst (lookup loc u))") auto
  with assms(2) have o1: "o1 = fst (lookup loc u)" by simp
  show ?thesis
    using False l
    unfolding Date_def Let_def assms(1)
    by (simp add: o1 [symmetric])
qed

lemma ParseInLocation_Format:
  assumes "0 \<le> Year tm" "Year tm \<le> 9999"
    and "layout = DateTimeFormatString \<and> tail = []
         \<or> layout = UTCDateTimeFormatString \<and> tail = ''Z''"
  shows "ParseInLocation layout (Format tm DateTimeFormatString @ tail) loc
    = Inr (Date (Year tm) (Month tm) (Day tm) (Hour tm) (Minute tm) (Second tm) 0 loc)"
proof -
  have m: "1 \<le> Month tm" and dd: "1 \<le> Day tm" "Day tm \<le> daysIn (Month tm) (Year tm)"
    using dateOf_spec [of tm] by simp_all
  have p: "parseChunks (layoutChunks layout) (Format tm DateTimeFormatString @ tail) parsedInit
      = Inr \<lparr>pYear = Year tm, pMonth = Month tm, pDay = Day tm, pHour = Hour tm,
                pMin = Minute tm, pSec = Second tm, pNsec = 0\<rparr>"
    using assms(3)
  proof
    assume a: "layout = DateTimeFormatString \<and> tail = []"
    show ?thesis
      using parseChunks_Format [OF assms(1,2), of "[]" "[]"] a
      by (simp add: layoutChunks_DateTime)
  next
    assume a: "layout = UTCDateTimeFormatString \<and> tail = ''Z''"
    show ?thesis
      using parseChunks_Format [OF assms(1,2), of "''Z''" "[Literal CHR ''Z'']"] a
      by (simp add: layoutChunks_UTCDateTime)
  qed
  show ?thesis
    unfolding ParseInLocation_def p using m dd by (simp add: Let_def)
qed




lemma localSec_UTC: "Location tm = UTC \<Longrightarrow> localSec tm = Unix tm"
  by (simp add: localSec_def)

section \<open>The claims\<close>












text \<open>
  Claim C3, as amended. For every \<^verbatim>\<open>DateTime\<close> \<open>v\<close> of whole seconds in UTC whose year is
  from 0 to 9999, \<^verbatim>\<open>DecodeICalValue\<close> on the text of \<^verbatim>\<open>v.EncodeICalValue()\<close> succeeds, on
  any receiver, and stores exactly \<open>v\<close>'s instant.
\<close>

theorem UTC_round_trip:
  assumes "Nanosecond (t v) = 0" and "Location (t v) = UTC"
    and "0 \<le> Year (t v)" and "Year (t v) \<le> 9999"
  shows "DecodeICalValue d (fst (EncodeICalValue v)) = (d\<lparr>t := t v\<rparr>, None)
    \<and> Equals (fst (DecodeICalValue d (fst (EncodeICalValue v)))) v"
proof -
  have enc: "fst (EncodeICalValue v) = Format (t v) DateTimeFormatString @ ''Z''"
    using assms(2) by (simp add: EncodeICalValue_def Let_def)
  have "Date (Year (t v)) (Month (t v)) (Day (t v)) (Hour (t v)) (Minute (t v)) (Second (t v)) 0 UTC
      = \<lparr>Unix = Unix (t v), Nanosecond = 0, Location = UTC\<rparr>"
    using wall_sum [of "t v"] localSec_UTC [OF assms(2)] by (intro Date_resolve) simp_all
  also have "\<dots> = t v" using assms(1,2) by simp
  finally have "ParseInLocation UTCDateTimeFormatString
      (Format (t v) DateTimeFormatString @ ''Z'') UTC = Inr (t v)"
    using ParseInLocation_Format [OF assms(3,4), of UTCDateTimeFormatString "''Z''" UTC] by simp
  then have "DecodeICalValue d (fst (EncodeICalValue v)) = (d\<lparr>t := t v\<rparr>, None)"
    unfolding enc DecodeICalValue_def Let_def by (simp add: hasSuffixZ_snoc)
  then show ?thesis by (simp add: Equals_def Equal_def)
qed

definition utc2024 :: DateTime where
  "utc2024 = \<lparr>t = \<lparr>Unix = 1704067200, Nanosecond = 0, Location = UTC\<rparr>\<rparr>"

definition utc10000 :: DateTime where
  "utc10000 = \<lparr>t = \<lparr>Unix = 253402300800, Nanosecond = 0, Location = UTC\<rparr>\<rparr>"

theorem UTC_round_trip_witness:
  "Year (t utc2024) = 2024
   \<and> fst (EncodeICalValue utc2024) = ''20240101T000000Z''
   \<and> DecodeICalValue \<lparr>t = zeroTime\<rparr> (fst (EncodeICalValue utc2024)) = (utc2024, None)
   \<and> Equals (fst (DecodeICalValue \<lparr>t = zeroTime\<rparr> (fst (EncodeICalValue utc2024)))) utc2024"
proof -
  have y: "Year (t utc2024) = 2024" by code_simp
  have e: "fst (EncodeICalValue utc2024) = ''20240101T000000Z''" by code_simp
  have h: "Nanosecond (t utc2024) = 0" "Location (t utc2024) = UTC"
    "0 \<le> Year (t utc2024)" "Year (t utc2024) \<le> 9999"
    by (simp_all add: y) (simp_all add: utc2024_def)
  from UTC_round_trip [OF h, of "\<lparr>t = zeroTime\<rparr>"] y e show ?thesis
    by (simp add: utc2024_def Equals_def Equal_def)
qed

text \<open>
  The claim as stated fails at 10000-01-01T00:00:00Z: the year is printed with five
  digits, and the parser, which reads four, finds the month \<^verbatim>\<open>00\<close>.
\<close>

theorem UTC_round_trip_counterexample:
  "Nanosecond (t utc10000) = 0 \<and> Location (t utc10000) = UTC
   \<and> fst (EncodeICalValue utc10000) = ''100000101T000000Z''
   \<and> snd (DecodeICalValue \<lparr>t = zeroTime\<rparr> (fst (EncodeICalValue utc10000)))
       = Some (UtilsError d_DecodeICalValue ''unable to parse datetime value''
           (DateTimeInstance \<lparr>t = zeroTime\<rparr>)
           (Some (TimeParseError
              (ParseError ''20060102T150405Z'' ''100000101T000000Z'' (OutOfRange ''month'')))))"
  by code_simp

text \<open>
  Claim C4. \<^verbatim>\<open>DateTimes.DecodeICalValue\<close> first splits the text with the list codec, then
  decodes the tokens in order, each into a new object that is appended to the list. When
  the tokens before index \<open>k\<close> decode and the token at \<open>k\<close> fails, the call stops there and
  returns an error naming the index \<open>k\<close>; the list is the old list followed by the \<open>k\<close>
  objects decoded from the tokens before, which are in the store, and no older object has
  changed. With \<open>k\<close> the number of tokens this is the run in which every token decodes.
\<close>

theorem DateTimes_DecodeICalValue_partial:
  assumes "csv value = Inr tokens" and "k \<le> length tokens"
    and "\<forall>j<k. snd (DecodeICalValue \<lparr>t = zeroTime\<rparr> (tokens ! j)) = None"
    and "k < length tokens \<longrightarrow> snd (DecodeICalValue \<lparr>t = zeroTime\<rparr> (tokens ! k)) \<noteq> None"
  shows "\<exists>s'. DateTimes_DecodeICalValue csv ds value s =
           (ds @ [nextAddr s..<nextAddr s + k], s',
            if k < length tokens
            then Some (NewError ds_DecodeICalValue
                   (sprintIndex ''unable to decode datetime at index '' k)
                   (DateTimesInstance (ds @ [nextAddr s..<nextAddr s + k]))
                   (snd (DecodeICalValue \<lparr>t = zeroTime\<rparr> (tokens ! k))))
            else None)
         \<and> (\<forall>j<k. objs s' (nextAddr s + j) = fst (DecodeICalValue \<lparr>t = zeroTime\<rparr> (tokens ! j)))
         \<and> (\<forall>a<nextAddr s. objs s' a = objs s a)"
  using decodeValuesFrom_run [OF assms(2,3,4), of 0 ds s, unfolded add_0] assms(1)
  by (simp add: DateTimes_DecodeICalValue_def split del: if_split)

text \<open>
  The run on \<^verbatim>\<open>20240101T000000Z,garbage\<close>, with the text cut at its commas: the call
  fails at index 1 and the first element is in the list.
\<close>

theorem DateTimes_DecodeICalValue_partial_witness:
  "fst (DateTimes_DecodeICalValue csvSplit [] ''20240101T000000Z,garbage''
          \<lparr>objs = (\<lambda>a. \<lparr>t = zeroTime\<rparr>), nextAddr = 0\<rparr>) = [0]
   \<and> objs (fst (snd (DateTimes_DecodeICalValue csvSplit [] ''20240101T000000Z,garbage''
          \<lparr>objs = (\<lambda>a. \<lparr>t = zeroTime\<rparr>), nextAddr = 0\<rparr>))) 0
       = \<lparr>t = \<lparr>Unix = 1704067200, Nanosecond = 0, Location = UTC\<rparr>\<rparr>
   \<and> snd (snd (DateTimes_DecodeICalValue csvSplit [] ''20240101T000000Z,garbage''
          \<lparr>objs = (\<lambda>a. \<lparr>t = zeroTime\<rparr>), nextAddr = 0\<rparr>))
       = Some (UtilsError ds_DecodeICalValue ''unable to decode datetime at index 1''
           (DateTimesInstance [0])
           (Some (UtilsError d_DecodeICalValue ''unable to parse datetime value''
              (DateTimeInstance \<lparr>t = zeroTime\<rparr>)
              (Some (TimeParseError (ParseError ''20060102T150405'' ''garbage'' BadValue))))))"
proof -
  have c: "csvSplit ''20240101T000000Z,garbage'' = Inr [''20240101T000000Z'', ''garbage'']"
    by code_simp
  have d0: "DecodeICalValue \<lparr>t = zeroTime\<rparr> ''20240101T000000Z''
      = (\<lparr>t = \<lparr>Unix = 1704067200, Nanosecond = 0, Location = UTC\<rparr>\<rparr>, None)"
    by code_simp
  have d1: "snd (DecodeICalValue \<lparr>t = zeroTime\<rparr> ''garbage'')
      = Some (UtilsError d_DecodeICalValue ''unable to parse datetime value''
              (DateTimeInstance \<lparr>t = zeroTime\<rparr>)
              (Some (TimeParseError (ParseError ''20060102T150405'' ''garbage'' BadValue))))"
    by code_simp
  have m: "sprintIndex ''unable to decode datetime at index '' 1
      = ''unable to decode datetime at index 1''"
    by code_simp
  have h2: "(1::nat) \<le> length [''20240101T000000Z'', ''garbage'']" by simp
  have h3: "\<forall>j<1. snd (DecodeICalValue \<lparr>t = zeroTime\<rparr> ([''20240101T000000Z'', ''garbage''] ! j)) = None"
    using d0 by simp
  have h4: "1 < length [''20240101T000000Z'', ''garbage''] \<longrightarrow>
      snd (DecodeICalValue \<lparr>t = zeroTime\<rparr> ([''20240101T000000Z'', ''garbage''] ! 1)) \<noteq> None"
    using d1 by simp
  from DateTimes_DecodeICalValue_partial [of csvSplit "''20240101T000000Z,garbage''"
      "[''20240101T000000Z'', ''garbage'']" 1 "[]"
      "\<lparr>objs = (\<lambda>a. \<lparr>t = zeroTime\<rparr>), nextAddr = 0\<rparr>", OF c h2 h3 h4]
  show ?thesis using d0 d1 m by (auto simp: NewError_def)
qed

text \<open>
  Claim C5, as amended. When \<^verbatim>\<open>DecodeICalValue\<close> fails, it returns a parse error whose
  cause holds the literal input text, and the receiver's stored instant is the zero
  \<^verbatim>\<open>Time\<close> afterwards: the failed parse result is assigned to \<^verbatim>\<open>d.t\<close> before the error is
  looked at. A fresh receiver is therefore unchanged; a receiver that held an instant
  loses it, which is what the claim as stated (the stored instant is not changed) denies.
\<close>

theorem DecodeICalValue_failure:
  assumes "snd (DecodeICalValue d value) = Some e"
  shows "fst (DecodeICalValue d value) = d\<lparr>t := zeroTime\<rparr>
    \<and> (\<exists>pe. e = UtilsError d_DecodeICalValue ''unable to parse datetime value''
                  (DateTimeInstance (d\<lparr>t := zeroTime\<rparr>)) (Some (TimeParseError pe))
          \<and> peValue pe = value)"
  using assms
  by (auto simp: DecodeICalValue_def Let_def NewError_def dest: ParseInLocation_Inl
      split: sum.splits)

theorem DecodeICalValue_failure_witness:
  "snd (DecodeICalValue \<lparr>t = \<lparr>Unix = 1704067200, Nanosecond = 0, Location = UTC\<rparr>\<rparr>
          ''not-a-date'')
     = Some (UtilsError d_DecodeICalValue ''unable to parse datetime value''
         (DateTimeInstance \<lparr>t = zeroTime\<rparr>)
         (Some (TimeParseError (ParseError ''20060102T150405'' ''not-a-date'' BadValue))))
   \<and> fst (DecodeICalValue \<lparr>t = \<lparr>Unix = 1704067200, Nanosecond = 0, Location = UTC\<rparr>\<rparr>
          ''not-a-date'') = \<lparr>t = zeroTime\<rparr>"
proof -
  have h: "snd (DecodeICalValue \<lparr>t = \<lparr>Unix = 1704067200, Nanosecond = 0, Location = UTC\<rparr>\<rparr>
          ''not-a-date'')
     = Some (UtilsError d_DecodeICalValue ''unable to parse datetime value''
         (DateTimeInstance \<lparr>t = zeroTime\<rparr>)
         (Some (TimeParseError (ParseError ''20060102T150405'' ''not-a-date'' BadValue))))"
    by code_simp
  from DecodeICalValue_failure [OF h] h show ?thesis by simp
qed

text \<open>
  The claim as stated fails on a receiver that holds 2024-01-01T00:00:00Z: after the
  failed decode of \<^verbatim>\<open>not-a-date\<close> it holds another instant.
\<close>

theorem DecodeICalValue_failure_counterexample:
  "snd (DecodeICalValue \<lparr>t = \<lparr>Unix = 1704067200, Nanosecond = 0, Location = UTC\<rparr>\<rparr>
          ''not-a-date'') \<noteq> None
   \<and> t (fst (DecodeICalValue \<lparr>t = \<lparr>Unix = 1704067200, Nanosecond = 0, Location = UTC\<rparr>\<rparr>
          ''not-a-date''))
       \<noteq> \<lparr>Unix = 1704067200, Nanosecond = 0, Location = UTC\<rparr>"
  by code_simp

text \<open>
  Claim C6, as amended. For a list whose elements are distinct objects (no pointer stands
  at two indices), \<^verbatim>\<open>DateTimes.DecodeICalParams\<close> applies the parameter block to the elements
  in index order; when the elements before index \<open>k\<close> decode and the element at \<open>k\<close>
  fails, the call stops there and returns an error naming the index \<open>k\<close>, the elements at
  smaller indices hold what their own \<^verbatim>\<open>DecodeICalParams\<close> made of them, and the elements
  at index \<open>k\<close> and after are as they were. With \<open>k\<close> the length of the list this is the
  run in which every element decodes.
\<close>

theorem DateTimes_DecodeICalParams_no_rollback:
  assumes "distinct ds" and "k \<le> length ds"
    and "\<forall>j<k. snd (DecodeICalParams env (objs s (ds ! j)) params) = None"
    and "k < length ds \<longrightarrow> snd (DecodeICalParams env (objs s (ds ! k)) params) \<noteq> None"
  shows "\<exists>s'. DateTimes_DecodeICalParams env ds params s =
           (s', if k < length ds
                then Some (NewError ds_DecodeICalValue
                       (sprintIndex ''unable to decode datetime params for index '' k)
                       (DateTimesInstance ds)
                       (snd (DecodeICalParams env (objs s (ds ! k)) params)))
                else None)
         \<and> (\<forall>j<k. objs s' (ds ! j) = fst (DecodeICalParams env (objs s (ds ! j)) params))
         \<and> (\<forall>j. k \<le> j \<and> j < length ds \<longrightarrow> objs s' (ds ! j) = objs s (ds ! j))"
proof -
  from decodeParamsFrom_run [OF assms, of ds 0, unfolded add_0]
  obtain s' where r: "decodeParamsFrom env params ds 0 ds s =
           (s', if k < length ds
                then Some (NewError ds_DecodeICalValue
                       (sprintIndex ''unable to decode datetime params for index '' k)
                       (DateTimesInstance ds)
                       (snd (DecodeICalParams env (objs s (ds ! k)) params)))
                else None)"
    and o1: "\<forall>j<k. objs s' (ds ! j) = fst (DecodeICalParams env (objs s (ds ! j)) params)"
    and o2: "\<forall>a. a \<notin> set (take k ds) \<longrightarrow> objs s' a = objs s a"
    by blast
  have "\<forall>j. k \<le> j \<and> j < length ds \<longrightarrow> objs s' (ds ! j) = objs s (ds ! j)"
  proof (intro allI impI)
    fix j assume j: "k \<le> j \<and> j < length ds"
    have "ds ! j \<notin> set (take k ds)"
    proof
      assume "ds ! j \<in> set (take k ds)"
      then obtain i where "i < k" "i < length ds" "ds ! i = ds ! j"
        by (auto simp: in_set_conv_nth)
      with assms(1) j show False by (simp add: nth_eq_iff_index_eq)
    qed
    with o2 show "objs s' (ds ! j) = objs s (ds ! j)" by simp
  qed
  with r o1 show ?thesis unfolding DateTimes_DecodeICalParams_def by blast
qed

text \<open>
  A zone database with one zone, and a store with two objects: 2024-01-01T00:00:00Z at
  address 0 and 10000-01-01T00:00:00Z, whose year does not fit the layout, at address 1.
\<close>

definition paris :: zonedata where
  "paris = \<lparr>firstOffset = 3600, tx = []\<rparr>"

definition env1 :: tzenv where
  "env1 = \<lparr>localName = ''Local'', localZone = \<lparr>firstOffset = 0, tx = []\<rparr>, zoneinfo = [(''Europe/Paris'', paris)]\<rparr>"

definition store1 :: store where
  "store1 = \<lparr>objs = (\<lambda>a. if a = 1
                then \<lparr>t = \<lparr>Unix = 253402300800, Nanosecond = 0, Location = UTC\<rparr>\<rparr>
                else \<lparr>t = \<lparr>Unix = 1704067200, Nanosecond = 0, Location = UTC\<rparr>\<rparr>),
             nextAddr = 2\<rparr>"

theorem DateTimes_DecodeICalParams_no_rollback_witness:
  "snd (DateTimes_DecodeICalParams env1 [0, 1] [TimeZoneIdPropertyName \<mapsto> ''Europe/Paris''] store1)
     = Some (UtilsError ds_DecodeICalValue ''unable to decode datetime params for index 1''
         (DateTimesInstance [0, 1])
         (Some (UtilsError d_DecodeICalValue ''unable to parse datetime value''
            (DateTimeInstance \<lparr>t = \<lparr>Unix = 253402300800, Nanosecond = 0, Location = UTC\<rparr>\<rparr>)
            (Some (TimeParseError
               (ParseError ''20060102T150405'' ''100000101T000000'' (OutOfRange ''month'')))))))
   \<and> objs (fst (DateTimes_DecodeICalParams env1 [0, 1]
              [TimeZoneIdPropertyName \<mapsto> ''Europe/Paris''] store1)) 0
       = \<lparr>t = \<lparr>Unix = 1704063600, Nanosecond = 0,
               Location = Named ''Europe/Paris'' paris\<rparr>\<rparr>
   \<and> objs (fst (DateTimes_DecodeICalParams env1 [0, 1]
              [TimeZoneIdPropertyName \<mapsto> ''Europe/Paris''] store1)) 1
       = \<lparr>t = \<lparr>Unix = 253402300800, Nanosecond = 0, Location = UTC\<rparr>\<rparr>"
proof -
  have o0: "objs store1 0 = \<lparr>t = \<lparr>Unix = 1704067200, Nanosecond = 0, Location = UTC\<rparr>\<rparr>"
    and o1: "objs store1 1 = \<lparr>t = \<lparr>Unix = 253402300800, Nanosecond = 0, Location = UTC\<rparr>\<rparr>"
    by (simp_all add: store1_def)
  have d0: "DecodeICalParams env1 \<lparr>t = \<lparr>Unix = 1704067200, Nanosecond = 0, Location = UTC\<rparr>\<rparr>
        [TimeZoneIdPropertyName \<mapsto> ''Europe/Paris'']
      = (\<lparr>t = \<lparr>Unix = 1704063600, Nanosecond = 0, Location = Named ''Europe/Paris'' paris\<rparr>\<rparr>,
         None)"
    by code_simp
  have d1: "snd (DecodeICalParams env1
        \<lparr>t = \<lparr>Unix = 253402300800, Nanosecond = 0, Location = UTC\<rparr>\<rparr>
        [TimeZoneIdPropertyName \<mapsto> ''Europe/Paris''])
      = Some (UtilsError d_DecodeICalValue ''unable to parse datetime value''
            (DateTimeInstance \<lparr>t = \<lparr>Unix = 253402300800, Nanosecond = 0, Location = UTC\<rparr>\<rparr>)
            (Some (TimeParseError
               (ParseError ''20060102T150405'' ''100000101T000000'' (OutOfRange ''month'')))))"
    by code_simp
  have m: "sprintIndex ''unable to decode datetime params for index '' 1
      = ''unable to decode datetime params for index 1''"
    by code_simp
  have h1: "distinct [0::nat, 1]" and h2: "(1::nat) \<le> length [0::nat, 1]" by simp_all
  have h3: "\<forall>j<1. snd (DecodeICalParams env1 (objs store1 ([0, 1] ! j))
      [TimeZoneIdPropertyName \<mapsto> ''Europe/Paris'']) = None"
    using d0 o0 by simp
  have h4: "1 < length [0::nat, 1] \<longrightarrow> snd (DecodeICalParams env1 (objs store1 ([0, 1] ! 1))
      [TimeZoneIdPropertyName \<mapsto> ''Europe/Paris'']) \<noteq> None"
    using d1 o1 by simp
  from DateTimes_DecodeICalParams_no_rollback [of "[0, 1]" 1 env1 store1
      "[TimeZoneIdPropertyName \<mapsto> ''Europe/Paris'']", OF h1 h2 h3 h4]
  obtain s' where r: "DateTimes_DecodeICalParams env1 [0, 1]
        [TimeZoneIdPropertyName \<mapsto> ''Europe/Paris''] store1
      = (s', Some (NewError ds_DecodeICalValue
                       (sprintIndex ''unable to decode datetime params for index '' 1)
                       (DateTimesInstance [0, 1])
                       (snd (DecodeICalParams env1 (objs store1 ([0, 1] ! 1))
                          [TimeZoneIdPropertyName \<mapsto> ''Europe/Paris'']))))"
    and a: "\<forall>j<1. objs s' ([0, 1] ! j) = fst (DecodeICalParams env1 (objs store1 ([0, 1] ! j))
          [TimeZoneIdPropertyName \<mapsto> ''Europe/Paris''])"
    and b: "\<forall>j. 1 \<le> j \<and> j < length [0::nat, 1] \<longrightarrow> objs s' ([0, 1] ! j) = objs store1 ([0, 1] ! j)"
    by auto
  have "objs s' 0 = fst (DecodeICalParams env1 (objs store1 0)
          [TimeZoneIdPropertyName \<mapsto> ''Europe/Paris''])"
    using a by simp
  moreover have "objs s' 1 = objs store1 1" using b [rule_format, of 1] by simp
  ultimately show ?thesis
    unfolding r using d0 d1 o0 o1 m by (simp add: NewError_def)
qed

text \<open>
  The claim as stated fails on the list \<open>[0, 1, 0]\<close>, in which the object at address 0
  stands at the indices 0 and 2: the call fails at index 1, and the element at the larger
  index 2 has been modified, since it is the object that was updated at index 0.
\<close>

theorem DateTimes_DecodeICalParams_alias_counterexample:
  "snd (DateTimes_DecodeICalParams env1 [0, 1, 0]
          [TimeZoneIdPropertyName \<mapsto> ''Europe/Paris''] store1)
     = Some (UtilsError ds_DecodeICalValue ''unable to decode datetime params for index 1''
         (DateTimesInstance [0, 1, 0])
         (Some (UtilsError d_DecodeICalValue ''unable to parse datetime value''
            (DateTimeInstance \<lparr>t = \<lparr>Unix = 253402300800, Nanosecond = 0, Location = UTC\<rparr>\<rparr>)
            (Some (TimeParseError
               (ParseError ''20060102T150405'' ''100000101T000000'' (OutOfRange ''month'')))))))
   \<and> objs (fst (DateTimes_DecodeICalParams env1 [0, 1, 0]
              [TimeZoneIdPropertyName \<mapsto> ''Europe/Paris''] store1)) ([0, 1, 0] ! 2)
       \<noteq> objs store1 ([0, 1, 0] ! 2)"
  by code_simp

text \<open>
  Claim C7, as amended. Every error that \<^verbatim>\<open>DecodeICalValue\<close>, \<^verbatim>\<open>DecodeICalParams\<close>,
  \<^verbatim>\<open>ValidateICalValue\<close> and the list variants of the two decoders return is an error of
  \<^verbatim>\<open>utils.NewError\<close> with an operation identity, a message that is not empty and the
  receiver as its instance. The errors of the decoders hold an underlying cause; the errors
  of \<^verbatim>\<open>ValidateICalValue\<close> hold none, the code passes \<^verbatim>\<open>nil\<close>. The identity is that of the
  failing operation for \<^verbatim>\<open>DecodeICalValue\<close>, its list variant and \<^verbatim>\<open>ValidateICalValue\<close>;
  which operation the errors of \<^verbatim>\<open>DecodeICalParams\<close> and its list variant name is left
  open here.
\<close>

theorem error_metadata:
  "(snd (DecodeICalValue d value) = Some e \<longrightarrow>
      (\<exists>msg c. e = UtilsError d_DecodeICalValue msg
          (DateTimeInstance (fst (DecodeICalValue d value))) (Some c) \<and> msg \<noteq> []))
   \<and> (snd (DecodeICalParams env d params) = Some e \<longrightarrow>
      (\<exists>fn msg c. e = UtilsError fn msg (DateTimeInstance d) (Some c) \<and> msg \<noteq> []))
   \<and> (ValidateICalValue d = Some e \<longrightarrow>
      (\<exists>msg. e = UtilsError d_ValidateICalValue msg (DateTimeInstance d) None \<and> msg \<noteq> []))
   \<and> (snd (snd (DateTimes_DecodeICalValue csv ds value s)) = Some e \<longrightarrow>
      (\<exists>msg c. e = UtilsError ds_DecodeICalValue msg
          (DateTimesInstance (fst (DateTimes_DecodeICalValue csv ds value s))) (Some c)
        \<and> msg \<noteq> []))
   \<and> (snd (DateTimes_DecodeICalParams env ds params s) = Some e \<longrightarrow>
      (\<exists>fn msg c. e = UtilsError fn msg (DateTimesInstance ds) (Some c) \<and> msg \<noteq> []))"
proof (intro conjI impI)
  assume "snd (DecodeICalValue d value) = Some e"
  then show "\<exists>msg c. e = UtilsError d_DecodeICalValue msg
      (DateTimeInstance (fst (DecodeICalValue d value))) (Some c) \<and> msg \<noteq> []"
    by (rule DecodeICalValue_error)
next
  assume "snd (DecodeICalParams env d params) = Some e"
  from DecodeICalParams_failure [OF this]
  show "\<exists>fn msg c. e = UtilsError fn msg (DateTimeInstance d) (Some c) \<and> msg \<noteq> []"
    by blast
next
  assume "ValidateICalValue d = Some e"
  then show "\<exists>msg. e = UtilsError d_ValidateICalValue msg (DateTimeInstance d) None \<and> msg \<noteq> []"
    by (rule ValidateICalValue_error)
next
  assume a: "snd (snd (DateTimes_DecodeICalValue csv ds value s)) = Some e"
  show "\<exists>msg c. e = UtilsError ds_DecodeICalValue msg
      (DateTimesInstance (fst (DateTimes_DecodeICalValue csv ds value s))) (Some c) \<and> msg \<noteq> []"
  proof (cases "csv value")
    case (Inl err)
    with a show ?thesis by (auto simp: DateTimes_DecodeICalValue_def NewError_def)
  next
    case (Inr tokens)
    with a decodeValuesFrom_error [of 0 tokens ds s e] show ?thesis
      by (simp add: DateTimes_DecodeICalValue_def)
  qed
next
  assume "snd (DateTimes_DecodeICalParams env ds params s) = Some e"
  then show "\<exists>fn msg c. e = UtilsError fn msg (DateTimesInstance ds) (Some c) \<and> msg \<noteq> []"
    using decodeParamsFrom_error [of env params ds 0 ds s e]
    by (auto simp: DateTimes_DecodeICalParams_def)
qed

text \<open>
  The claim as stated fails on a value in the local zone: the error of its validation has
  no underlying cause.
\<close>

definition localDateTime :: DateTime where
  "localDateTime = \<lparr>t = \<lparr>Unix = 1704067200, Nanosecond = 0,
                         Location = Local ''Local'' \<lparr>firstOffset = 0, tx = []\<rparr>\<rparr>\<rparr>"

theorem error_metadata_counterexample:
  "ValidateICalValue localDateTime
     = Some (UtilsError d_ValidateICalValue
         ''DateTime location may not Local, please use UTC or explicit Location''
         (DateTimeInstance localDateTime) None)
   \<and> errCause (the (ValidateICalValue localDateTime)) = None"
  by (simp add: ValidateICalValue_def localDateTime_def NewError_def)

theorem error_metadata_witness:
  "(\<exists>msg. ValidateICalValue localDateTime
       = Some (UtilsError d_ValidateICalValue msg (DateTimeInstance localDateTime) None)
     \<and> msg \<noteq> [])
   \<and> (\<exists>msg c. snd (DecodeICalValue \<lparr>t = zeroTime\<rparr> ''not-a-date'')
       = Some (UtilsError d_DecodeICalValue msg
           (DateTimeInstance (fst (DecodeICalValue \<lparr>t = zeroTime\<rparr> ''not-a-date''))) (Some c))
     \<and> msg \<noteq> [])"
proof -
  have v: "ValidateICalValue localDateTime
     = Some (UtilsError d_ValidateICalValue
         ''DateTime location may not Local, please use UTC or explicit Location''
         (DateTimeInstance localDateTime) None)"
    by (simp add: ValidateICalValue_def localDateTime_def NewError_def)
  have d: "snd (DecodeICalValue \<lparr>t = zeroTime\<rparr> ''not-a-date'')
      = Some (UtilsError d_DecodeICalValue ''unable to parse datetime value''
         (DateTimeInstance \<lparr>t = zeroTime\<rparr>)
         (Some (TimeParseError (ParseError ''20060102T150405'' ''not-a-date'' BadValue))))"
    by code_simp
  note th1 = error_metadata [where d = localDateTime, THEN conjunct2, THEN conjunct2,
      THEN conjunct1, rule_format, OF v]
  note th2 = error_metadata [where d = "\<lparr>t = zeroTime\<rparr>", THEN conjunct1, rule_format, OF d]
  from th1 th2 v d show ?thesis by auto
qed



text \<open>
  Claim C10. Whenever \<^verbatim>\<open>DecodeICalValue\<close> succeeds, whichever layout matched and whatever
  location the receiver had before, the stored instant is located in UTC afterwards; and a
  \<^verbatim>\<open>DecodeICalParams\<close> with no timezone-identifier parameter leaves it as it is, so only a
  parameter block with that parameter can attach another location.
\<close>

theorem DecodeICalValue_UTC:
  assumes "DecodeICalValue d value = (d', None)"
  shows "Location (t d') = UTC
    \<and> (params TimeZoneIdPropertyName = None \<longrightarrow> DecodeICalParams env d' params = (d', None))"
proof -
  from assms obtain tm where "d' = d\<lparr>t := tm\<rparr>"
    and "ParseInLocation (if hasSuffixZ value then UTCDateTimeFormatString
            else if length value = 8 then DateFormatString else DateTimeFormatString) value UTC
         = Inr tm"
    by (auto simp: DecodeICalValue_def Let_def NewError_def split: sum.splits)
  then have "Location (t d') = UTC"
    using ParseInLocation_Location by simp
  moreover have "params TimeZoneIdPropertyName = None \<longrightarrow> DecodeICalParams env d' params = (d', None)"
    by (simp add: DecodeICalParams_def Let_def)
  ultimately show ?thesis by simp
qed

theorem DecodeICalValue_UTC_witness:
  "DecodeICalValue
     \<lparr>t = \<lparr>Unix = 0, Nanosecond = 0,
            Location = Named ''Europe/Paris'' \<lparr>firstOffset = 3600, tx = []\<rparr>\<rparr>\<rparr>
     ''20240101T120000''
   = (\<lparr>t = \<lparr>Unix = 1704110400, Nanosecond = 0, Location = UTC\<rparr>\<rparr>, None)
   \<and> Location (t \<lparr>t = \<lparr>Unix = 1704110400, Nanosecond = 0, Location = UTC\<rparr>\<rparr>) = UTC
   \<and> DecodeICalParams \<lparr>localName = ''Local'', localZone = \<lparr>firstOffset = 0, tx = []\<rparr>, zoneinfo = []\<rparr>
         \<lparr>t = \<lparr>Unix = 1704110400, Nanosecond = 0, Location = UTC\<rparr>\<rparr> Map.empty
       = (\<lparr>t = \<lparr>Unix = 1704110400, Nanosecond = 0, Location = UTC\<rparr>\<rparr>, None)"
proof -
  have h: "DecodeICalValue
     \<lparr>t = \<lparr>Unix = 0, Nanosecond = 0,
            Location = Named ''Europe/Paris'' \<lparr>firstOffset = 3600, tx = []\<rparr>\<rparr>\<rparr>
     ''20240101T120000''
   = (\<lparr>t = \<lparr>Unix = 1704110400, Nanosecond = 0, Location = UTC\<rparr>\<rparr>, None)"
    by code_simp
  from DecodeICalValue_UTC [OF h, of Map.empty
      "\<lparr>localName = ''Local'', localZone = \<lparr>firstOffset = 0, tx = []\<rparr>, zoneinfo = []\<rparr>"] h
  show ?thesis by simp
qed

end
